theory Spec2Isabelle
  imports Complex_Main
begin

section \<open>JavaScript values used by the wizard\<close>

text \<open>
  The capture counters live in a JavaScript \<^verbatim>\<open>number[]\<close>. Reading an index that is
  not there gives \<^verbatim>\<open>undefined\<close>, writing one extends the array (the gap reads as
  \<^verbatim>\<open>undefined\<close> once the array is spread), and arithmetic on \<^verbatim>\<open>undefined\<close> gives
  \<^verbatim>\<open>NaN\<close>. An element is therefore a number, \<^verbatim>\<open>NaN\<close> or \<^verbatim>\<open>undefined\<close>.
  Slot indices are natural numbers: every caller passes 0, 1 or 2. A number is an
  integer: the counters only ever hold 0 to 15 (shown below for every run of the page),
  where JavaScript's arithmetic on doubles is exact.
\<close>

datatype jsnum = Num int | NaN | Undefined

definition js_get :: "jsnum list \<Rightarrow> nat \<Rightarrow> jsnum" where
  "js_get xs i = (if i < length xs then xs ! i else Undefined)"

definition js_set :: "jsnum list \<Rightarrow> nat \<Rightarrow> jsnum \<Rightarrow> jsnum list" where
  "js_set xs i v =
     (if i < length xs then xs[i := v]
      else xs @ replicate (i - length xs) Undefined @ [v])"

text \<open>\<^verbatim>\<open>x + 1\<close> and \<^verbatim>\<open>Math.min(x, 15)\<close> on such a value.\<close>

fun js_plus1 :: "jsnum \<Rightarrow> jsnum" where
  "js_plus1 (Num n) = Num (n + 1)"
| "js_plus1 NaN = NaN"
| "js_plus1 Undefined = NaN"

fun js_min15 :: "jsnum \<Rightarrow> jsnum" where
  "js_min15 (Num n) = Num (min n 15)"
| "js_min15 NaN = NaN"
| "js_min15 Undefined = NaN"

section \<open>The wizard page (pages/Index.tsx)\<close>

text \<open>
  The page's React state. \<^verbatim>\<open>captureCounts\<close> starts as \<^verbatim>\<open>[0, 0, 0]\<close>; the page's
  \<^verbatim>\<open>isCapturing\<close> starts false and is only ever set to false.
\<close>

record index_state =
  currentStep :: nat
  currentCamera :: nat
  captureCounts :: "jsnum list"
  isCapturing :: bool


text \<open>
  \<^verbatim>\<open>handleCameraSwitch(index)\<close>: \<^verbatim>\<open>setCurrentCamera(index)\<close>, then the counters are
  copied and \<^verbatim>\<open>newCounts[index] = 0\<close>.
\<close>

definition handleCameraSwitch :: "nat \<Rightarrow> index_state \<Rightarrow> index_state" where
  "handleCameraSwitch index s =
     s\<lparr>currentCamera := index,
       captureCounts := js_set (captureCounts s) index (Num 0)\<rparr>"

text \<open>
  \<^verbatim>\<open>handleCapture(cameraIndex)\<close>: the counters are copied and
  \<^verbatim>\<open>newCounts[cameraIndex] = Math.min(newCounts[cameraIndex] + 1, 15)\<close>; then
  \<^verbatim>\<open>setIsCapturing(false)\<close>.
\<close>

definition handleCapture :: "nat \<Rightarrow> index_state \<Rightarrow> index_state" where
  "handleCapture cameraIndex s =
     s\<lparr>captureCounts :=
         js_set (captureCounts s) cameraIndex
           (js_min15 (js_plus1 (js_get (captureCounts s) cameraIndex))),
       isCapturing := False\<rparr>"

section \<open>Messages, errors, requests and effects\<close>

text \<open>
  A message is a template literal: its string pieces and the numbers spliced into it.
  A thrown value is an \<^verbatim>\<open>Error\<close> with its message, or some other value (the code tests
  \<^verbatim>\<open>error instanceof Error\<close>).
\<close>

datatype part = Str string | N int

type_synonym msg = "part list"

datatype js_error = Error msg | Thrown_value

datatype variant = Default | Destructive

record CalibrationConfig =
  numCameras :: nat
  resolution :: "nat \<times> nat"
  markerSize :: real
  minMarkersDetected :: nat
  maxReprojError :: real

text \<open>
  The requests the front end sends: URL first, then the fields of the JSON body. The body
  of \<^verbatim>\<open>/detect_markers\<close> holds a \<^verbatim>\<open>config\<close> only where the code puts one.
\<close>

datatype request =
    Detect_markers string string nat "CalibrationConfig option"
  | Start_calibration string "nat list" CalibrationConfig
  | Calibration_progress string
  | Stop_calibration string

record markers =
  corners :: "real list list list option"
  ids :: "int list option"

text \<open>
  \<^verbatim>\<open>CalibrationResult\<close>: the shape of the backend's detection reply and of what the
  service returns. \<^verbatim>\<open>detected\<close>, \<^verbatim>\<open>message\<close> and \<^verbatim>\<open>markers\<close> are optional.
\<close>

record CalibrationResult =
  success :: bool
  message :: "msg option"
  detected :: "bool option"
  markers :: "markers option"

text \<open>
  What \<^verbatim>\<open>await fetch(...)\<close> followed by \<^verbatim>\<open>await response.json()\<close> can give: the fetch
  rejects, or a response arrives with \<^verbatim>\<open>response.ok\<close>, its status and a body that parses
  or not.
\<close>

datatype 'a http = Rejected js_error | Response bool nat "js_error + 'a"

text \<open>
  The status of the extrinsic step's progress record: the string literals the component
  uses for its \<^verbatim>\<open>CalibrationStatus\<close>.
\<close>

datatype CalibrationStatus = Idle | Detecting | Calibrating | Complete | Error_status

text \<open>
  What a handler does to the rest of the world, in order: notifications, requests, canvas
  strokes, console output, timers (\<^verbatim>\<open>setInterval\<close> with its handle and delay,
  \<^verbatim>\<open>clearInterval\<close>, \<^verbatim>\<open>setTimeout\<close> with its delay, a timed wait), the extrinsic
  step's \<^verbatim>\<open>setCalibrationProgress\<close> calls, the media calls of the device registry and
  of the camera view, and the camera view's \<^verbatim>\<open>onStream\<close> callback with the stream.
\<close>

datatype effect =
    Toast string msg variant
  | Fetch request
  | Stroke_markers
  | Console_error
  | Console_warn
  | Set_interval nat nat
  | Clear_interval nat
  | Set_timeout nat
  | Wait nat
  | Set_progress CalibrationStatus int
  | Get_user_media
  | Stop_tracks
  | Enumerate_devices
  | On_stream nat

text \<open>\<^verbatim>\<open>m || d\<close> on an optional string: an absent or empty message is falsy.\<close>

definition or_default :: "msg option \<Rightarrow> msg \<Rightarrow> msg" where
  "or_default m d = (case m of None \<Rightarrow> d | Some x \<Rightarrow> if x = [] \<or> x = [Str []] then d else x)"

text \<open>
  \<^verbatim>\<open>error instanceof Error ? error.message : fallback\<close>.
\<close>

definition message_of :: "js_error \<Rightarrow> msg \<Rightarrow> msg" where
  "message_of e fallback = (case e of Error m \<Rightarrow> m | Thrown_value \<Rightarrow> fallback)"

record MediaDeviceInfo =
  deviceId :: string
  kind :: string
  label :: string

section \<open>The intrinsic capture component (components/IntrinsicCalibration.tsx)\<close>

text \<open>
  The component's own React state. Its \<^verbatim>\<open>isCapturing\<close> is the field \<open>capturing\<close>
  here (the page has an \<^verbatim>\<open>isCapturing\<close> of its own).
\<close>

record intrinsic_state =
  capturing :: bool
  streamReady :: bool
  cameraError :: "string option"

text \<open>
  What one run of \<^verbatim>\<open>captureAndDetect\<close> finds around it: the video element of its slot,
  the canvas and its 2d context, the JPEG data URL of the frame, and the backend's answer.
\<close>

record capture_env =
  video_present :: bool
  canvas_present :: bool
  ctx_present :: bool
  image :: string
  detect_reply :: "CalibrationResult http"

definition totalRequiredImages :: int where
  "totalRequiredImages = 15"

text \<open>
  Drawing the detected markers (only when the reply has \<^verbatim>\<open>markers.corners\<close>): for every
  marker the code strokes one outline, reading
  \<^verbatim>\<open>markerCorners[0][0]\<close> up to \<^verbatim>\<open>markerCorners[3][1]\<close>, which throws a
  \<^verbatim>\<open>TypeError\<close> when a marker has fewer than four corners.
\<close>

definition draw_markers :: "CalibrationResult \<Rightarrow> js_error + effect list" where
  "draw_markers result =
     (case markers result of
        None \<Rightarrow> Inr []
      | Some m \<Rightarrow>
          (case corners m of
             None \<Rightarrow> Inr []
           | Some cs \<Rightarrow>
               if list_ex (\<lambda>c. length c < 4) cs then Inl (Error [Str ''TypeError''])
               else Inr (map (\<lambda>c. Stroke_markers) cs)))"

text \<open>
  \<^verbatim>\<open>Math.min(captureCount + 1, totalRequiredImages)\<close> as the success toast prints it.
\<close>

definition shown_count :: "jsnum \<Rightarrow> part" where
  "shown_count c = (case js_min15 (js_plus1 c) of Num n \<Rightarrow> N n | _ \<Rightarrow> Str ''NaN'')"

text \<open>
  The \<^verbatim>\<open>try\<close> block of \<^verbatim>\<open>captureAndDetect\<close>. The result says whether the block threw;
  the flag says whether \<^verbatim>\<open>onCapture()\<close> was called.
\<close>

definition captureAndDetect_try ::
  "nat \<Rightarrow> jsnum \<Rightarrow> capture_env \<Rightarrow> (js_error + unit) \<times> bool \<times> effect list" where
  "captureAndDetect_try cameraIndex captureCount env =
     (if \<not> video_present env \<or> \<not> canvas_present env then
        (Inr (), False,
         [Toast ''Error''
            [Str ''Camera '', N (int cameraIndex + 1),
             Str '' or canvas not ready. Please try again or check permissions.'']
            Destructive])
      else if \<not> ctx_present env then
        (Inr (), False, [Toast ''Error'' [Str ''Could not get canvas context.''] Destructive])
      else
        let sent = [Fetch (Detect_markers ''http://127.0.0.1:8000/detect_markers''
                             (image env) cameraIndex None)]
        in
          (case detect_reply env of
             Rejected e \<Rightarrow> (Inl e, False, sent)
           | Response ok status body \<Rightarrow>
               if \<not> ok then (Inl (Error [Str ''HTTP error! status: '', N (int status)]), False, sent)
               else
                 (case body of
                    Inl e \<Rightarrow> (Inl e, False, sent)
                  | Inr result \<Rightarrow>
                      if success result \<and> detected result = Some True then
                        (case draw_markers result of
                           Inl e \<Rightarrow> (Inl e, False, sent)
                         | Inr strokes \<Rightarrow>
                             (Inr (), True,
                              sent @ strokes @
                              [Toast ''Success''
                                 [Str ''Captured image '', shown_count captureCount,
                                  Str '' of '', N totalRequiredImages,
                                  Str '' for Camera '', N (int cameraIndex + 1)]
                                 Default]))
                      else
                        (Inl (Error (or_default (message result)
                                       [Str ''Failed to detect markers''])),
                         False, sent))))"

text \<open>
  \<^verbatim>\<open>captureAndDetect\<close>: the guard, \<^verbatim>\<open>setIsCapturing(true)\<close>, the \<^verbatim>\<open>try\<close> block, the
  \<^verbatim>\<open>catch\<close> with its toast, and \<^verbatim>\<open>setIsCapturing(false)\<close> in \<^verbatim>\<open>finally\<close>. The
  parent's state is passed through \<^verbatim>\<open>onCapture\<close> when the block called it.
\<close>

definition captureAndDetect ::
  "nat \<Rightarrow> jsnum \<Rightarrow> MediaDeviceInfo list \<Rightarrow> ('p \<Rightarrow> 'p) \<Rightarrow> capture_env \<Rightarrow>
   'p \<times> intrinsic_state \<Rightarrow> ('p \<times> intrinsic_state) \<times> effect list" where
  "captureAndDetect cameraIndex captureCount cameraDevices onCapture env ps =
     (case ps of (parent, st) \<Rightarrow>
        if capturing st \<or> \<not> streamReady st \<or> \<not> cameraIndex < length cameraDevices then
          ((parent, st), [])
        else
          (case captureAndDetect_try cameraIndex captureCount env of
             (r, called, effs) \<Rightarrow>
               ((if called then onCapture parent else parent, st\<lparr>capturing := False\<rparr>),
                (case r of
                   Inr u \<Rightarrow> effs
                 | Inl e \<Rightarrow>
                     effs @
                     [Console_error,
                      Toast ''Capture Error''
                        (message_of e
                           [Str ''Failed to process image. Check backend connection or permissions.''])
                        Destructive]))))"

text \<open>\<^verbatim>\<open>captureCount >= totalRequiredImages\<close> on a counter read from the array.\<close>

fun js_ge15 :: "jsnum \<Rightarrow> bool" where
  "js_ge15 (Num n) = (totalRequiredImages \<le> n)"
| "js_ge15 NaN = False"
| "js_ge15 Undefined = False"

text \<open>
  The capture button: the component renders nothing when its slot has no device, and the
  button is \<^verbatim>\<open>disabled={!streamReady || captureCount >= totalRequiredImages || isCapturing}\<close>.
  A click on a disabled button runs no handler.
\<close>

definition capture_button_disabled :: "jsnum \<Rightarrow> intrinsic_state \<Rightarrow> bool" where
  "capture_button_disabled captureCount st =
     (\<not> streamReady st \<or> js_ge15 captureCount \<or> capturing st)"

definition click_capture ::
  "nat \<Rightarrow> jsnum \<Rightarrow> MediaDeviceInfo list \<Rightarrow> ('p \<Rightarrow> 'p) \<Rightarrow> capture_env \<Rightarrow>
   'p \<times> intrinsic_state \<Rightarrow> ('p \<times> intrinsic_state) \<times> effect list" where
  "click_capture cameraIndex captureCount cameraDevices onCapture env ps =
     (if \<not> cameraIndex < length cameraDevices \<or> capture_button_disabled captureCount (snd ps)
      then (ps, [])
      else captureAndDetect cameraIndex captureCount cameraDevices onCapture env ps)"

text \<open>
  The page renders one capture component per slot with
  \<^verbatim>\<open>captureCount={captureCounts[index]}\<close> and \<^verbatim>\<open>onCapture={() => onCapture(index)}\<close>
  (components/steps/IntrinsicCalibrationStep.tsx), where the page's \<^verbatim>\<open>onCapture\<close> is
  \<^verbatim>\<open>handleCapture\<close>.
\<close>

definition slot_captureAndDetect ::
  "nat \<Rightarrow> MediaDeviceInfo list \<Rightarrow> capture_env \<Rightarrow>
   index_state \<times> intrinsic_state \<Rightarrow> (index_state \<times> intrinsic_state) \<times> effect list" where
  "slot_captureAndDetect index cameraDevices env ps =
     captureAndDetect index (js_get (captureCounts (fst ps)) index) cameraDevices
       (handleCapture index) env ps"

definition slot_click_capture ::
  "nat \<Rightarrow> MediaDeviceInfo list \<Rightarrow> capture_env \<Rightarrow>
   index_state \<times> intrinsic_state \<Rightarrow> (index_state \<times> intrinsic_state) \<times> effect list" where
  "slot_click_capture index cameraDevices env ps =
     click_capture index (js_get (captureCounts (fst ps)) index) cameraDevices
       (handleCapture index) env ps"

text \<open>The backend confirmed the detection: an ok response whose body reports both flags.\<close>

definition backend_confirmed :: "capture_env \<Rightarrow> bool" where
  "backend_confirmed env =
     (case detect_reply env of
        Rejected e \<Rightarrow> False
      | Response ok status body \<Rightarrow>
          ok \<and> (case body of Inl e \<Rightarrow> False
                | Inr result \<Rightarrow> success result \<and> detected result = Some True))"

section \<open>The calibration service (services/CalibrationService.ts)\<close>

text \<open>
  \<^verbatim>\<open>getCalibrationApiUrl\<close> reads \<^verbatim>\<open>window.env.VITE_CALIBRATION_API_URL\<close> when that is
  there and truthy, else \<^verbatim>\<open>process.env.VITE_CALIBRATION_API_URL || 'http://127.0.0.1:8000'\<close>.
  Where \<^verbatim>\<open>process\<close> is not defined the second read throws a \<^verbatim>\<open>ReferenceError\<close>.
\<close>

record api_env =
  window_url :: "string option"
  process_url :: "string option option"

definition getCalibrationApiUrl :: "api_env \<Rightarrow> js_error + string" where
  "getCalibrationApiUrl env =
     (case window_url env of
        Some u \<Rightarrow> if u \<noteq> [] then Inr u
                  else (case process_url env of
                          None \<Rightarrow> Inl (Error [Str ''process is not defined''])
                        | Some None \<Rightarrow> Inr ''http://127.0.0.1:8000''
                        | Some (Some p) \<Rightarrow> Inr (if p = [] then ''http://127.0.0.1:8000'' else p))
      | None \<Rightarrow>
          (case process_url env of
             None \<Rightarrow> Inl (Error [Str ''process is not defined''])
           | Some None \<Rightarrow> Inr ''http://127.0.0.1:8000''
           | Some (Some p) \<Rightarrow> Inr (if p = [] then ''http://127.0.0.1:8000'' else p)))"

text \<open>The service's private \<^verbatim>\<open>config\<close>.\<close>

definition config :: CalibrationConfig where
  "config =
     \<lparr>numCameras = 3, resolution = (1280, 720), markerSize = 0.05,
      minMarkersDetected = 4, maxReprojError = 1.0\<rparr>"

text \<open>
  The service's fields (its \<^verbatim>\<open>isCalibrating\<close> is the field \<open>calibrating\<close> here; the
  extrinsic component has an \<^verbatim>\<open>isCalibrating\<close> of its own), with the runtime's table of
  running interval timers beside them
  (\<^verbatim>\<open>setInterval\<close> returns a fresh handle and adds it, \<^verbatim>\<open>clearInterval\<close> removes it)
  and the number of progress requests that were sent and not yet answered.
\<close>

record service =
  calibrating :: bool
  progressInterval :: "nat option"
  intervals :: "nat list"
  next_handle :: nat
  awaited :: nat

definition service_init :: service where
  "service_init =
     \<lparr>calibrating = False, progressInterval = None, intervals = [], next_handle = 1,
      awaited = 0\<rparr>"

text \<open>\<^verbatim>\<open>result.markers?.ids?.length || 0\<close>.\<close>

definition ids_length :: "CalibrationResult \<Rightarrow> nat" where
  "ids_length result =
     (case markers result of
        None \<Rightarrow> 0
      | Some m \<Rightarrow> (case ids m of None \<Rightarrow> 0 | Some xs \<Rightarrow> length xs))"

text \<open>
  \<^verbatim>\<open>detectMarkers(imageData, cameraIndex)\<close>: its \<^verbatim>\<open>try\<close> block, which throws when the
  scratch canvas has no 2d context, when the URL cannot be read, when the fetch rejects,
  when the body does not parse and when the response is not ok.
\<close>

definition detectMarkers_try ::
  "api_env \<Rightarrow> bool \<Rightarrow> string \<Rightarrow> nat \<Rightarrow> CalibrationResult http \<Rightarrow>
   (js_error + CalibrationResult) \<times> effect list" where
  "detectMarkers_try api ctx base64Image cameraIndex reply =
     (if \<not> ctx then (Inl (Error [Str ''Failed to get canvas context'']), [])
      else
        (case getCalibrationApiUrl api of
           Inl e \<Rightarrow> (Inl e, [])
         | Inr apiUrl \<Rightarrow>
             let sent = [Fetch (Detect_markers (apiUrl @ ''/detect_markers'') base64Image
                                  cameraIndex (Some config))]
             in
               (case reply of
                  Rejected e \<Rightarrow> (Inl e, sent)
                | Response ok status body \<Rightarrow>
                    (case body of
                       Inl e \<Rightarrow> (Inl e, sent)
                     | Inr result \<Rightarrow>
                         if \<not> ok then
                           (Inl (Error (or_default (message result) [Str ''Detection failed''])),
                            sent)
                         else
                           (Inr \<lparr>success = True,
                                 message =
                                   Some [Str ''Detected '', N (int (ids_length result)),
                                         Str '' markers for Camera '', N (int cameraIndex + 1)],
                                 detected =
                                   Some (minMarkersDetected config \<le> ids_length result),
                                 markers = markers result\<rparr>,
                            sent)))))"

text \<open>The \<^verbatim>\<open>catch\<close> of \<^verbatim>\<open>detectMarkers\<close> turns every throw into a failed result.\<close>

definition detectMarkers ::
  "api_env \<Rightarrow> bool \<Rightarrow> string \<Rightarrow> nat \<Rightarrow> CalibrationResult http \<Rightarrow>
   (js_error + CalibrationResult) \<times> effect list" where
  "detectMarkers api ctx base64Image cameraIndex reply =
     (case detectMarkers_try api ctx base64Image cameraIndex reply of
        (Inr r, effs) \<Rightarrow> (Inr r, effs)
      | (Inl e, effs) \<Rightarrow>
          (Inr \<lparr>success = False,
                message = Some (message_of e [Str ''Failed to detect markers'']),
                detected = Some False, markers = None\<rparr>,
           effs @ [Console_error]))"

text \<open>\<^verbatim>\<open>stopProgressPolling\<close> and \<^verbatim>\<open>startProgressPolling\<close>.\<close>

definition stopProgressPolling :: "service \<Rightarrow> service \<times> effect list" where
  "stopProgressPolling s =
     (case progressInterval s of
        Some h \<Rightarrow>
          (s\<lparr>intervals := removeAll h (intervals s), progressInterval := None,
             calibrating := False\<rparr>,
           [Clear_interval h])
      | None \<Rightarrow> (s\<lparr>calibrating := False\<rparr>, []))"

definition startProgressPolling :: "service \<Rightarrow> service \<times> effect list" where
  "startProgressPolling s =
     (let cleared =
            (case progressInterval s of
               Some h \<Rightarrow> (s\<lparr>intervals := removeAll h (intervals s)\<rparr>, [Clear_interval h])
             | None \<Rightarrow> (s, []));
          s1 = fst cleared;
          h' = next_handle s1
      in (s1\<lparr>progressInterval := Some h', intervals := h' # intervals s1,
             next_handle := Suc h'\<rparr>,
          snd cleared @ [Set_interval h' 1000]))"

text \<open>
  \<^verbatim>\<open>startCalibration(cameraIndices)\<close>: the \<^verbatim>\<open>try\<close> block and the \<^verbatim>\<open>catch\<close> that
  returns \<^verbatim>\<open>{ success: false, ... }\<close>. \<^verbatim>\<open>new Error(undefined)\<close> has the empty message.
\<close>

definition startCalibration_try ::
  "api_env \<Rightarrow> nat list \<Rightarrow> CalibrationResult http \<Rightarrow> service \<Rightarrow>
   (js_error + CalibrationResult) \<times> service \<times> effect list" where
  "startCalibration_try api cameraIndices reply s =
     (case getCalibrationApiUrl api of
        Inl e \<Rightarrow> (Inl e, s, [])
      | Inr apiUrl \<Rightarrow>
          let sent = [Fetch (Start_calibration (apiUrl @ ''/start_calibration'') cameraIndices
                               config)]
          in
            (case reply of
               Rejected e \<Rightarrow> (Inl e, s, sent)
             | Response ok status body \<Rightarrow>
                 (case body of
                    Inl e \<Rightarrow> (Inl e, s, sent)
                  | Inr result \<Rightarrow>
                      if \<not> ok then
                        (Inl (Error (case message result of None \<Rightarrow> [] | Some m \<Rightarrow> m)), s, sent)
                      else
                        (case startProgressPolling (s\<lparr>calibrating := True\<rparr>) of
                           (s', effs) \<Rightarrow>
                             (Inr \<lparr>success = True,
                                   message =
                                     Some [Str ''Extrinsic calibration started with '',
                                           N (int (length cameraIndices)),
                                           Str '' cameras at '', N (int (fst (resolution config))),
                                           Str ''x'', N (int (snd (resolution config)))],
                                   detected = None, markers = None\<rparr>,
                              s', sent @ effs)))))"

definition startCalibration ::
  "api_env \<Rightarrow> nat list \<Rightarrow> CalibrationResult http \<Rightarrow> service \<Rightarrow>
   (js_error + CalibrationResult) \<times> service \<times> effect list" where
  "startCalibration api cameraIndices reply s =
     (case startCalibration_try api cameraIndices reply s of
        (Inr r, s', effs) \<Rightarrow> (Inr r, s', effs)
      | (Inl e, s', effs) \<Rightarrow>
          (Inr \<lparr>success = False,
                message = Some (message_of e [Str ''Extrinsic calibration failed to start'']),
                detected = None, markers = None\<rparr>,
           s', effs))"

text \<open>
  \<^verbatim>\<open>getProgress()\<close>, split at its \<^verbatim>\<open>await\<close>: the part that sends the request and the
  part that reads the reply. Its \<^verbatim>\<open>catch\<close> logs and throws the error again.
\<close>

record progress_data =
  is_running :: bool
  data_progress :: int
  data_message :: "msg option"

record CalibrationProgress =
  status :: string
  progress :: int
  progress_message :: "msg option"

definition getProgress_request :: "api_env \<Rightarrow> js_error + request" where
  "getProgress_request api =
     (case getCalibrationApiUrl api of
        Inl e \<Rightarrow> Inl e
      | Inr apiUrl \<Rightarrow> Inr (Calibration_progress (apiUrl @ ''/calibration_progress'')))"

definition getProgress_result :: "progress_data http \<Rightarrow> js_error + CalibrationProgress" where
  "getProgress_result reply =
     (case reply of
        Rejected e \<Rightarrow> Inl e
      | Response ok st body \<Rightarrow>
          (case body of
             Inl e \<Rightarrow> Inl e
           | Inr d \<Rightarrow>
               if \<not> ok then Inl (Error (case data_message d of None \<Rightarrow> [] | Some m \<Rightarrow> m))
               else Inr \<lparr>status = (if is_running d then ''running'' else ''stopped''),
                         progress = data_progress d,
                         progress_message = data_message d\<rparr>))"

text \<open>
  The interval callback of \<^verbatim>\<open>startProgressPolling\<close>, again split at its \<^verbatim>\<open>await\<close>.
  \<^verbatim>\<open>poll_tick\<close> is the callback up to the request (a throw there goes straight to the
  \<^verbatim>\<open>catch\<close>, which stops polling); \<^verbatim>\<open>poll_reply\<close> is the rest, run when the answer
  to a request arrives.
\<close>

definition poll_tick :: "api_env \<Rightarrow> service \<Rightarrow> service \<times> effect list" where
  "poll_tick api s =
     (case getProgress_request api of
        Inl e \<Rightarrow>
          (case stopProgressPolling s of (s', effs) \<Rightarrow> (s', [Console_error, Console_error] @ effs))
      | Inr req \<Rightarrow> (s\<lparr>awaited := Suc (awaited s)\<rparr>, [Fetch req]))"

definition poll_reply :: "progress_data http \<Rightarrow> service \<Rightarrow> service \<times> effect list" where
  "poll_reply reply s =
     (let s0 = s\<lparr>awaited := awaited s - 1\<rparr> in
        case getProgress_result reply of
          Inl e \<Rightarrow>
            (case stopProgressPolling s0 of
               (s', effs) \<Rightarrow> (s', [Console_error, Console_error] @ effs))
        | Inr p \<Rightarrow>
            if \<not> calibrating s0 \<or> 100 \<le> progress p then stopProgressPolling s0 else (s0, []))"

text \<open>
  What can happen to the service, one event of the event loop at a time: a call of
  \<^verbatim>\<open>startCalibration\<close> with the backend's answer, a tick of an interval timer (only a
  timer that is still running ticks), and the arrival of the answer to a progress request
  (only while one is awaited).
\<close>

datatype service_event =
    Start_called "nat list" "CalibrationResult http"
  | Tick nat
  | Progress_arrived "progress_data http"

definition service_step :: "api_env \<Rightarrow> service_event \<Rightarrow> service \<Rightarrow> service \<times> effect list" where
  "service_step api ev s =
     (case ev of
        Start_called cameraIndices reply \<Rightarrow> snd (startCalibration api cameraIndices reply s)
      | Tick h \<Rightarrow> if h \<in> set (intervals s) then poll_tick api s else (s, [])
      | Progress_arrived reply \<Rightarrow> if 0 < awaited s then poll_reply reply s else (s, []))"

fun service_run :: "api_env \<Rightarrow> service_event list \<Rightarrow> service \<Rightarrow> service \<times> effect list" where
  "service_run api [] s = (s, [])"
| "service_run api (ev # evs) s =
     (case service_step api ev s of
        (s', effs) \<Rightarrow> (case service_run api evs s' of (s'', effs') \<Rightarrow> (s'', effs @ effs')))"

section \<open>The extrinsic capture component (ExtrinsicCalibration)\<close>

text \<open>
  The component's React state: \<^verbatim>\<open>isCalibrating\<close> and the progress record
  \<^verbatim>\<open>calibrationProgress\<close> with its \<^verbatim>\<open>status\<close>, \<^verbatim>\<open>progress\<close> and \<^verbatim>\<open>message\<close>,
  initially idle, 0 and empty.
\<close>

record calibration_progress =
  progress_status :: CalibrationStatus
  progress_value :: int
  progress_text :: msg

record extrinsic_state =
  isCalibrating :: bool
  calibrationProgress :: calibration_progress

definition extrinsic_init :: extrinsic_state where
  "extrinsic_init =
     \<lparr>isCalibrating = False,
      calibrationProgress = \<lparr>progress_status = Idle, progress_value = 0, progress_text = []\<rparr>\<rparr>"

definition selectedCameras :: "nat list" where
  "selectedCameras = [0, 1, 2]"

text \<open>
  What one detection promise of \<^verbatim>\<open>captureImage\<close> finds: the slot's video element, the
  2d context of the canvas it creates, the 2d context of the canvas \<^verbatim>\<open>detectMarkers\<close>
  creates, the JPEG data URL of the frame, and the backend's answer.
\<close>

record camera_env =
  cam_video :: bool
  cam_ctx :: bool
  service_ctx :: bool
  cam_image :: string
  cam_reply :: "CalibrationResult http"

definition detectionPromise ::
  "api_env \<Rightarrow> (nat \<Rightarrow> camera_env) \<Rightarrow> nat \<Rightarrow> (js_error + CalibrationResult) \<times> effect list" where
  "detectionPromise api cams cameraIndex =
     (if \<not> cam_video (cams cameraIndex) then
        (Inl (Error [Str ''Camera '', N (int cameraIndex + 1), Str '' not available'']), [])
      else if \<not> cam_ctx (cams cameraIndex) then
        (Inl (Error [Str ''Could not get canvas context'']), [])
      else
        detectMarkers api (service_ctx (cams cameraIndex)) (cam_image (cams cameraIndex))
          cameraIndex (cam_reply (cams cameraIndex)))"

text \<open>
  \<^verbatim>\<open>Promise.all\<close>: every promise runs; the outcome is the list of results, or the first
  rejection.
\<close>

fun promise_all :: "(js_error + 'a) list \<Rightarrow> js_error + 'a list" where
  "promise_all [] = Inr []"
| "promise_all (Inl e # rs) = Inl e"
| "promise_all (Inr r # rs) = (case promise_all rs of Inl e \<Rightarrow> Inl e | Inr xs \<Rightarrow> Inr (r # xs))"

text \<open>
  The \<^verbatim>\<open>try\<close> block of \<^verbatim>\<open>captureImage\<close>. It returns whether it threw, the last
  progress record it set, the service and the effects.
\<close>

definition captureImage_try ::
  "api_env \<Rightarrow> (nat \<Rightarrow> camera_env) \<Rightarrow> CalibrationResult http \<Rightarrow> service \<Rightarrow>
   (js_error + unit) \<times> calibration_progress \<times> service \<times> effect list" where
  "captureImage_try api cams start_reply svc =
     (let detecting =
            \<lparr>progress_status = Detecting, progress_value = 0,
             progress_text = [Str ''Detecting markers across all cameras...'']\<rparr>;
          promises = map (detectionPromise api cams) selectedCameras;
          effs0 = [Set_progress Detecting 0] @ concat (map snd promises)
      in
        case promise_all (map fst promises) of
          Inl e \<Rightarrow> (Inl e, detecting, svc, effs0)
        | Inr results \<Rightarrow>
            if list_all (\<lambda>result. success result \<and> detected result = Some True) results then
              (let calibrating_now =
                     \<lparr>progress_status = Calibrating, progress_value = 50,
                      progress_text = [Str ''Starting calibration for all cameras...'']\<rparr>
               in
                 case startCalibration api selectedCameras start_reply svc of
                   (Inl e, svc', effs) \<Rightarrow>
                     (Inl e, calibrating_now, svc', effs0 @ [Set_progress Calibrating 50] @ effs)
                 | (Inr r, svc', effs) \<Rightarrow>
                     (Inr (),
                      \<lparr>progress_status = Complete, progress_value = 100,
                       progress_text =
                         [Str ''Extrinsic calibration completed successfully for all cameras'']\<rparr>,
                      svc',
                      effs0 @ [Set_progress Calibrating 50] @ effs @
                      [Set_progress Complete 100,
                       Toast ''Success''
                         [Str ''Markers detected and extrinsic calibration completed for all cameras'']
                         Default]))
            else
              (Inl (Error [Str ''Failed to detect markers in all camera views'']), detecting, svc,
               effs0))"

text \<open>
  \<^verbatim>\<open>captureImage\<close>: \<^verbatim>\<open>setIsCalibrating(true)\<close>, the \<^verbatim>\<open>try\<close> block, the \<^verbatim>\<open>catch\<close>
  that sets the error record and shows the error toast, and the \<^verbatim>\<open>finally\<close> that arms
  a two-second timeout.
\<close>

definition captureImage ::
  "api_env \<Rightarrow> (nat \<Rightarrow> camera_env) \<Rightarrow> CalibrationResult http \<Rightarrow>
   extrinsic_state \<times> service \<Rightarrow> (extrinsic_state \<times> service) \<times> effect list" where
  "captureImage api cams start_reply es =
     (case captureImage_try api cams start_reply (snd es) of
        (Inr u, p, svc', effs) \<Rightarrow>
          ((\<lparr>isCalibrating = True, calibrationProgress = p\<rparr>, svc'), effs @ [Set_timeout 2000])
      | (Inl e, p, svc', effs) \<Rightarrow>
          ((\<lparr>isCalibrating = True,
             calibrationProgress =
               \<lparr>progress_status = Error_status, progress_value = 0,
                progress_text = message_of e [Str ''Failed to capture image for calibration'']\<rparr>\<rparr>,
            svc'),
           effs @
           [Console_error, Set_progress Error_status 0,
            Toast ''Error'' (message_of e [Str ''Failed to capture image for calibration''])
              Destructive,
            Set_timeout 2000]))"

text \<open>
  The timeout's callback reads the status the component had when \<^verbatim>\<open>captureImage\<close> was
  created: \<^verbatim>\<open>if (calibrationProgress.status !== 'error') setIsCalibrating(false)\<close>.
\<close>

definition captureImage_timeout :: "CalibrationStatus \<Rightarrow> extrinsic_state \<Rightarrow> extrinsic_state" where
  "captureImage_timeout seen s = (if seen \<noteq> Error_status then s\<lparr>isCalibrating := False\<rparr> else s)"

text \<open>
  The Capture Frame button is \<^verbatim>\<open>disabled={isCalibrating || cameraDevices.length < 3}\<close>.
\<close>

definition click_captureImage ::
  "MediaDeviceInfo list \<Rightarrow> api_env \<Rightarrow> (nat \<Rightarrow> camera_env) \<Rightarrow> CalibrationResult http \<Rightarrow>
   extrinsic_state \<times> service \<Rightarrow> (extrinsic_state \<times> service) \<times> effect list" where
  "click_captureImage cameraDevices api cams start_reply es =
     (if isCalibrating (fst es) \<or> length cameraDevices < 3 then (es, [])
      else captureImage api cams start_reply es)"

text \<open>
  All three detection calls were made and each returned \<^verbatim>\<open>success && detected\<close>.
\<close>

definition detection_confirmed :: "api_env \<Rightarrow> (nat \<Rightarrow> camera_env) \<Rightarrow> nat \<Rightarrow> bool" where
  "detection_confirmed api cams cameraIndex =
     (case fst (detectionPromise api cams cameraIndex) of
        Inl e \<Rightarrow> False
      | Inr result \<Rightarrow> success result \<and> detected result = Some True)"

definition all_detected :: "api_env \<Rightarrow> (nat \<Rightarrow> camera_env) \<Rightarrow> bool" where
  "all_detected api cams =
     (detection_confirmed api cams 0 \<and> detection_confirmed api cams 1 \<and>
      detection_confirmed api cams 2)"

text \<open>The requests among a handler's effects.\<close>

fun requests_of :: "effect list \<Rightarrow> request list" where
  "requests_of [] = []"
| "requests_of (Fetch r # effs) = r # requests_of effs"
| "requests_of (e # effs) = requests_of effs"

fun is_start_request :: "request \<Rightarrow> bool" where
  "is_start_request (Start_calibration url cameraIndices c) = True"
| "is_start_request r = False"

fun is_progress_request :: "request \<Rightarrow> bool" where
  "is_progress_request (Calibration_progress url) = True"
| "is_progress_request r = False"

text \<open>
  Facts about the service's polling state: every running interval timer is the one the
  service holds in \<^verbatim>\<open>progressInterval\<close>; polling is off; a reply ends the job (it
  failed, or it reports a progress of 100 or more).
\<close>

definition timers_owned :: "service \<Rightarrow> bool" where
  "timers_owned s = list_all (\<lambda>h. progressInterval s = Some h) (intervals s)"

definition polling_off :: "service \<Rightarrow> bool" where
  "polling_off s = (progressInterval s = None \<and> intervals s = [] \<and> \<not> calibrating s)"

definition poll_terminal :: "progress_data http \<Rightarrow> bool" where
  "poll_terminal reply =
     (case getProgress_result reply of Inl e \<Rightarrow> True | Inr p \<Rightarrow> 100 \<le> progress p)"

fun is_start_event :: "service_event \<Rightarrow> bool" where
  "is_start_event (Start_called cameraIndices reply) = True"
| "is_start_event ev = False"

section \<open>The device registry (hooks/useCameras.ts)\<close>

definition MAX_PERMISSION_ATTEMPTS :: nat where
  "MAX_PERMISSION_ATTEMPTS = 5"

text \<open>
  The permission loop of \<^verbatim>\<open>getCameras\<close>, started with \<^verbatim>\<open>permissionAttempts = 0\<close>.
  \<open>gum k\<close> is what the probe \<^verbatim>\<open>getUserMedia\<close> call does after \<open>k\<close> failed attempts:
  \<open>None\<close> when it resolves (the probe stream's tracks are stopped at once), the error when
  it rejects. A failed attempt is counted and logged; the fifth failure is thrown, any
  earlier one is followed by a wait of 3000 ms.
\<close>

function permission_loop :: "(nat \<Rightarrow> js_error option) \<Rightarrow> nat \<Rightarrow> (js_error + unit) \<times> effect list" where
  "permission_loop gum permissionAttempts =
     (if permissionAttempts < MAX_PERMISSION_ATTEMPTS then
        (case gum permissionAttempts of
           None \<Rightarrow> (Inr (), [Get_user_media, Stop_tracks])
         | Some permissionError \<Rightarrow>
             if permissionAttempts + 1 = MAX_PERMISSION_ATTEMPTS then
               (Inl permissionError, [Get_user_media, Console_warn])
             else
               (case permission_loop gum (permissionAttempts + 1) of
                  (r, effs) \<Rightarrow> (r, [Get_user_media, Console_warn, Wait 3000] @ effs)))
      else (Inr (), []))"
  by pat_completeness auto
termination
  by (relation "measure (\<lambda>(gum, n). MAX_PERMISSION_ATTEMPTS - n)") auto

declare permission_loop.simps [simp del]

record registry =
  cameraDevices :: "MediaDeviceInfo list"

text \<open>
  The \<^verbatim>\<open>try\<close> block of \<^verbatim>\<open>getCameras\<close>: the permission loop, \<^verbatim>\<open>enumerateDevices\<close>
  (which may reject), the filter on \<^verbatim>\<open>kind === 'videoinput'\<close>, the throw on an empty
  list, and the success toast.
\<close>

definition getCameras_try ::
  "(nat \<Rightarrow> js_error option) \<Rightarrow> (js_error + MediaDeviceInfo list) \<Rightarrow>
   (js_error + MediaDeviceInfo list) \<times> effect list" where
  "getCameras_try gum enumerated =
     (case permission_loop gum 0 of
        (Inl e, effs) \<Rightarrow> (Inl e, effs)
      | (Inr u, effs) \<Rightarrow>
          (case enumerated of
             Inl e \<Rightarrow> (Inl e, effs @ [Enumerate_devices])
           | Inr devices \<Rightarrow>
               let videoDevices = filter (\<lambda>device. kind device = ''videoinput'') devices in
                 if length videoDevices = 0 then
                   (Inl (Error [Str ''No video input devices detected in Camera Setup'']),
                    effs @ [Enumerate_devices])
                 else
                   (Inr videoDevices,
                    effs @
                    [Enumerate_devices,
                     Toast ''Cameras Detected''
                       [Str ''Found '', N (int (length videoDevices)),
                        Str '' cameras in Camera Setup'']
                       Default])))"

text \<open>
  \<^verbatim>\<open>getCameras\<close>: on success the device list is replaced; the \<^verbatim>\<open>catch\<close> logs, shows
  the error toast and sets the list to \<^verbatim>\<open>[]\<close>. The result says whether anything is
  thrown to the caller.
\<close>

definition getCameras ::
  "(nat \<Rightarrow> js_error option) \<Rightarrow> (js_error + MediaDeviceInfo list) \<Rightarrow> registry \<Rightarrow>
   (js_error + unit) \<times> registry \<times> effect list" where
  "getCameras gum enumerated s =
     (case getCameras_try gum enumerated of
        (Inr videoDevices, effs) \<Rightarrow> (Inr (), s\<lparr>cameraDevices := videoDevices\<rparr>, effs)
      | (Inl e, effs) \<Rightarrow>
          (Inr (), s\<lparr>cameraDevices := []\<rparr>,
           effs @
           [Console_error,
            Toast ''Camera Error''
              [Str ''Could not access cameras in Camera Setup. Please ensure camera permissions are granted, no other apps are using them, and hardware is connected. Attempting to refresh permissions...'']
              Destructive]))"

text \<open>
  The \<^verbatim>\<open>devicechange\<close> listener and the exported \<^verbatim>\<open>refreshCameras\<close> both run
  \<^verbatim>\<open>getCameras\<close>.
\<close>

definition handleDeviceChange ::
  "(nat \<Rightarrow> js_error option) \<Rightarrow> (js_error + MediaDeviceInfo list) \<Rightarrow> registry \<Rightarrow>
   (js_error + unit) \<times> registry \<times> effect list" where
  "handleDeviceChange = getCameras"

definition refreshCameras ::
  "(nat \<Rightarrow> js_error option) \<Rightarrow> (js_error + MediaDeviceInfo list) \<Rightarrow> registry \<Rightarrow>
   (js_error + unit) \<times> registry \<times> effect list" where
  "refreshCameras = getCameras"

text \<open>The notifications and the probe calls among a handler's effects.\<close>

fun toasts_of :: "effect list \<Rightarrow> effect list" where
  "toasts_of [] = []"
| "toasts_of (Toast title description v # effs) = Toast title description v # toasts_of effs"
| "toasts_of (e # effs) = toasts_of effs"

fun probes_of :: "effect list \<Rightarrow> nat" where
  "probes_of [] = 0"
| "probes_of (Get_user_media # effs) = Suc (probes_of effs)"
| "probes_of (e # effs) = probes_of effs"

fun waits_of :: "effect list \<Rightarrow> nat list" where
  "waits_of [] = []"
| "waits_of (Wait ms # effs) = ms # waits_of effs"
| "waits_of (e # effs) = waits_of effs"

text \<open>
  The two ways an enumeration fails that the registry names: all five probes reject, or the
  enumerated devices hold no video input.
\<close>

definition probe_exhausted :: "(nat \<Rightarrow> js_error option) \<Rightarrow> bool" where
  "probe_exhausted gum = list_all (\<lambda>k. gum k \<noteq> None) [0..<MAX_PERMISSION_ATTEMPTS]"

definition no_video_input :: "(js_error + MediaDeviceInfo list) \<Rightarrow> bool" where
  "no_video_input enumerated =
     (case enumerated of
        Inl e \<Rightarrow> False
      | Inr devices \<Rightarrow> filter (\<lambda>device. kind device = ''videoinput'') devices = [])"

section \<open>The camera view (components/CameraView.tsx)\<close>

definition MAX_RETRIES :: nat where
  "MAX_RETRIES = 7"

text \<open>
  Every run of the component's effect has its own \<^verbatim>\<open>mounted\<close>, \<^verbatim>\<open>retryTimeout\<close> and
  \<^verbatim>\<open>retryCount\<close>, and sees the \<^verbatim>\<open>deviceId\<close> of its render.
\<close>

record effect_run =
  run_deviceId :: "string option"
  mounted :: bool
  retryCount :: nat
  retryTimeout :: "nat option"

text \<open>
  A call of \<^verbatim>\<open>initCamera\<close> that is waiting: for \<^verbatim>\<open>getUserMedia\<close>, for the video's
  metadata, or for \<^verbatim>\<open>play()\<close>, the last two with the stream it obtained.
\<close>

datatype phase = Await_gum | Await_metadata nat | Await_play nat

text \<open>
  The component: its refs (\<^verbatim>\<open>streamRef\<close>, \<^verbatim>\<open>initializingRef\<close>, the video element
  behind \<^verbatim>\<open>videoRef\<close> with its \<^verbatim>\<open>srcObject\<close>, or no element), its React state, the runs
  of its effect, and around it the streams it obtained whose tracks are live, the pending
  timeouts (handle and run) and the waiting calls of \<^verbatim>\<open>initCamera\<close> (call, run, phase).
  A stream is named by a number; \<^verbatim>\<open>getUserMedia\<close> gives a fresh one each time.
\<close>

record camera_view =
  streamRef :: "nat option"
  initializingRef :: bool
  video :: "nat option option"
  live :: "nat list"
  next_stream :: nat
  runs :: "effect_run list"
  timeouts :: "(nat \<times> nat) list"
  next_timeout :: nat
  calls :: "(nat \<times> nat \<times> phase) list"
  next_call :: nat
  isInitializing :: bool
  hasError :: bool

definition camera_view_init :: camera_view where
  "camera_view_init =
     \<lparr>streamRef = None, initializingRef = False, video = Some None, live = [],
      next_stream = 0, runs = [], timeouts = [], next_timeout = 1, calls = [],
      next_call = 0, isInitializing = True, hasError = False\<rparr>"

text \<open>
  \<^verbatim>\<open>if (streamRef.current) { ...getTracks().forEach(track => track.stop());
  streamRef.current = null }\<close> and \<^verbatim>\<open>if (videoRef.current) videoRef.current.srcObject = null\<close>.
\<close>

definition stop_held :: "camera_view \<Rightarrow> camera_view \<times> effect list" where
  "stop_held s =
     (case streamRef s of
        Some x \<Rightarrow> (s\<lparr>live := removeAll x (live s), streamRef := None\<rparr>, [Stop_tracks])
      | None \<Rightarrow> (s, []))"

definition detach :: "camera_view \<Rightarrow> camera_view" where
  "detach s = (case video s of Some src \<Rightarrow> s\<lparr>video := Some None\<rparr> | None \<Rightarrow> s)"

text \<open>\<^verbatim>\<open>!deviceId\<close>: an absent or empty device id is falsy.\<close>

definition deviceId_falsy :: "effect_run \<Rightarrow> bool" where
  "deviceId_falsy r = (case run_deviceId r of None \<Rightarrow> True | Some d \<Rightarrow> d = [])"

text \<open>
  The \<^verbatim>\<open>catch\<close> of \<^verbatim>\<open>initCamera\<close> for a call of run \<open>k\<close>: while the run is mounted, a
  retry after 3000 ms if fewer than \<^verbatim>\<open>MAX_RETRIES\<close> were made, else the error state and
  the error toast with the error's message.
\<close>

definition initCamera_catch :: "nat \<Rightarrow> js_error \<Rightarrow> camera_view \<Rightarrow> camera_view \<times> effect list" where
  "initCamera_catch k e s =
     (let r = runs s ! k in
        if mounted r then
          if retryCount r < MAX_RETRIES then
            (s\<lparr>runs := (runs s)[k := r\<lparr>retryCount := retryCount r + 1,
                                       retryTimeout := Some (next_timeout s)\<rparr>],
               timeouts := timeouts s @ [(next_timeout s, k)],
               next_timeout := Suc (next_timeout s)\<rparr>,
             [Console_error, Set_timeout 3000])
          else
            (s\<lparr>hasError := True, isInitializing := False\<rparr>,
             [Console_error,
              Toast ''Camera Error''
                ([Str ''Failed to initialize camera '',
                  Str (case run_deviceId r of None \<Rightarrow> ''undefined'' | Some d \<Rightarrow> d),
                  Str '' after '', N (int MAX_RETRIES), Str '' attempts: ''] @
                 or_default (case e of Error m \<Rightarrow> Some m | Thrown_value \<Rightarrow> None)
                   [Str ''Unknown error''])
                Destructive])
        else (s, [Console_error]))"

text \<open>The \<^verbatim>\<open>finally\<close> of a waiting call \<open>i\<close>: the flag is lowered and the call is over.\<close>

definition finish :: "nat \<Rightarrow> camera_view \<Rightarrow> camera_view" where
  "finish i s = s\<lparr>initializingRef := False, calls := filter (\<lambda>c. fst c \<noteq> i) (calls s)\<rparr>"

definition fail :: "nat \<Rightarrow> nat \<Rightarrow> js_error \<Rightarrow> camera_view \<Rightarrow> camera_view \<times> effect list" where
  "fail i k e s = (case initCamera_catch k e s of (s', effs) \<Rightarrow> (finish i s', effs))"

text \<open>
  \<^verbatim>\<open>initCamera\<close> of run \<open>k\<close> up to its first \<^verbatim>\<open>await\<close>: the guard on the device id and
  the flag, the flag raised, the throw when \<^verbatim>\<open>getUserMedia\<close> is not supported, the held
  stream stopped and detached, and the call of \<^verbatim>\<open>getUserMedia\<close>.
\<close>

definition initCamera :: "bool \<Rightarrow> nat \<Rightarrow> camera_view \<Rightarrow> camera_view \<times> effect list" where
  "initCamera supported k s =
     (if deviceId_falsy (runs s ! k) \<or> initializingRef s then (s, [])
      else
        let s1 = s\<lparr>initializingRef := True\<rparr> in
          if \<not> supported then
            (case initCamera_catch k (Error [Str ''getUserMedia is not supported'']) s1 of
               (s2, effs) \<Rightarrow> (s2\<lparr>initializingRef := False\<rparr>, effs))
          else
            (case stop_held s1 of
               (s2, effs) \<Rightarrow>
                 (let s3 = detach s2 in
                    (s3\<lparr>calls := calls s3 @ [(next_call s3, k, Await_gum)],
                        next_call := Suc (next_call s3)\<rparr>,
                     effs @ [Get_user_media]))))"

text \<open>
  The events of the component's life: the effect runs (with the \<^verbatim>\<open>deviceId\<close> of the
  render), the cleanup of a run, a timeout fires, and for a waiting call:
  \<^verbatim>\<open>getUserMedia\<close> resolves or rejects, the video reports its metadata or an error,
  \<^verbatim>\<open>play()\<close> resolves or rejects. React may also attach a video element to \<^verbatim>\<open>videoRef\<close>
  or take it away.
\<close>

datatype cv_event =
    Effect_runs "string option"
  | Cleanup nat
  | Timeout_fires nat
  | Gum_resolves nat
  | Gum_rejects nat js_error
  | Metadata_loaded nat
  | Video_error nat
  | Play_resolves nat
  | Play_rejects nat js_error
  | Video_mounted
  | Video_unmounted

definition set_phase :: "nat \<Rightarrow> phase \<Rightarrow> (nat \<times> nat \<times> phase) list \<Rightarrow> (nat \<times> nat \<times> phase) list" where
  "set_phase i p cs = map (\<lambda>c. if fst c = i then (fst c, fst (snd c), p) else c) cs"

text \<open>
  The effect body: a new run, mounted, with the first \<^verbatim>\<open>initCamera\<close> 2500 ms away (that
  timeout's handle is not kept). The cleanup: the run is unmounted, its retry timeout
  cleared, the held stream stopped, the video detached.
\<close>

definition effect_runs :: "string option \<Rightarrow> camera_view \<Rightarrow> camera_view \<times> effect list" where
  "effect_runs d s =
     (s\<lparr>runs := runs s @ [\<lparr>run_deviceId = d, mounted = True, retryCount = 0,
                            retryTimeout = None\<rparr>],
        timeouts := timeouts s @ [(next_timeout s, length (runs s))],
        next_timeout := Suc (next_timeout s)\<rparr>,
      [Set_timeout 2500])"

definition cleanup :: "nat \<Rightarrow> camera_view \<Rightarrow> camera_view \<times> effect list" where
  "cleanup k s =
     (let r = runs s ! k;
          s1 = s\<lparr>runs := (runs s)[k := r\<lparr>mounted := False\<rparr>]\<rparr>;
          s2 = (case retryTimeout r of
                  Some h \<Rightarrow> s1\<lparr>timeouts := filter (\<lambda>t. fst t \<noteq> h) (timeouts s1)\<rparr>
                | None \<Rightarrow> s1)
      in case stop_held s2 of (s3, effs) \<Rightarrow> (detach s3, effs))"

text \<open>The rest of \<^verbatim>\<open>initCamera\<close>, from each \<^verbatim>\<open>await\<close> on, for call \<open>i\<close> of run \<open>k\<close>.\<close>

definition gum_resolved :: "nat \<Rightarrow> nat \<Rightarrow> camera_view \<Rightarrow> camera_view \<times> effect list" where
  "gum_resolved i k s =
     (let x = next_stream s;
          s1 = s\<lparr>next_stream := Suc x, live := x # live s\<rparr>
      in
        if \<not> mounted (runs s ! k) then
          (finish i (s1\<lparr>live := removeAll x (live s1)\<rparr>), [Stop_tracks])
        else
          let s2 = s1\<lparr>streamRef := Some x\<rparr> in
            (case video s2 of
               Some src \<Rightarrow>
                 (s2\<lparr>video := Some (Some x), calls := set_phase i (Await_metadata x) (calls s2)\<rparr>,
                  [])
             | None \<Rightarrow> (finish i s2, [])))"

definition metadata_loaded :: "nat \<Rightarrow> nat \<Rightarrow> nat \<Rightarrow> camera_view \<Rightarrow> camera_view \<times> effect list" where
  "metadata_loaded i k x s =
     (case video s of
        None \<Rightarrow> fail i k (Error [Str ''TypeError'']) s
      | Some src \<Rightarrow> (s\<lparr>calls := set_phase i (Await_play x) (calls s)\<rparr>, []))"

definition play_resolved :: "nat \<Rightarrow> nat \<Rightarrow> nat \<Rightarrow> camera_view \<Rightarrow> camera_view \<times> effect list" where
  "play_resolved i k x s =
     (let r = runs s ! k in
        if mounted r then
          (finish i (s\<lparr>isInitializing := False, hasError := False,
                       runs := (runs s)[k := r\<lparr>retryCount := 0\<rparr>]\<rparr>),
           [On_stream x,
            Toast ''Camera Connected''
              [Str ''Successfully connected to camera '',
               Str (case run_deviceId r of None \<Rightarrow> ''undefined'' | Some d \<Rightarrow> d),
               Str '' in Camera Setup'']
              Default])
        else (finish i s, []))"

definition cv_step :: "bool \<Rightarrow> cv_event \<Rightarrow> camera_view \<Rightarrow> camera_view \<times> effect list" where
  "cv_step supported ev s =
     (case ev of
        Effect_runs d \<Rightarrow> effect_runs d s
      | Cleanup k \<Rightarrow> if k < length (runs s) then cleanup k s else (s, [])
      | Timeout_fires h \<Rightarrow>
          (case map_of (timeouts s) h of
             Some k \<Rightarrow>
               if k < length (runs s)
               then initCamera supported k (s\<lparr>timeouts := filter (\<lambda>t. fst t \<noteq> h) (timeouts s)\<rparr>)
               else (s, [])
           | None \<Rightarrow> (s, []))
      | Gum_resolves i \<Rightarrow>
          (case map_of (calls s) i of
             Some (k, Await_gum) \<Rightarrow> if k < length (runs s) then gum_resolved i k s else (s, [])
           | _ \<Rightarrow> (s, []))
      | Gum_rejects i e \<Rightarrow>
          (case map_of (calls s) i of
             Some (k, Await_gum) \<Rightarrow> if k < length (runs s) then fail i k e s else (s, [])
           | _ \<Rightarrow> (s, []))
      | Metadata_loaded i \<Rightarrow>
          (case map_of (calls s) i of
             Some (k, Await_metadata x) \<Rightarrow>
               if k < length (runs s) then metadata_loaded i k x s else (s, [])
           | _ \<Rightarrow> (s, []))
      | Video_error i \<Rightarrow>
          (case map_of (calls s) i of
             Some (k, Await_metadata x) \<Rightarrow>
               if k < length (runs s) then fail i k Thrown_value s else (s, [])
           | _ \<Rightarrow> (s, []))
      | Play_resolves i \<Rightarrow>
          (case map_of (calls s) i of
             Some (k, Await_play x) \<Rightarrow>
               if k < length (runs s) then play_resolved i k x s else (s, [])
           | _ \<Rightarrow> (s, []))
      | Play_rejects i e \<Rightarrow>
          (case map_of (calls s) i of
             Some (k, Await_play x) \<Rightarrow> if k < length (runs s) then fail i k e s else (s, [])
           | _ \<Rightarrow> (s, []))
      | Video_mounted \<Rightarrow> (s\<lparr>video := Some None\<rparr>, [])
      | Video_unmounted \<Rightarrow> (s\<lparr>video := None\<rparr>, []))"

fun cv_run :: "bool \<Rightarrow> cv_event list \<Rightarrow> camera_view \<Rightarrow> camera_view \<times> effect list" where
  "cv_run supported [] s = (s, [])"
| "cv_run supported (ev # evs) s =
     (case cv_step supported ev s of
        (s', effs) \<Rightarrow> (case cv_run supported evs s' of (s'', effs') \<Rightarrow> (s'', effs @ effs')))"

text \<open>
  What holds of the component at every moment: a live stream is the one \<^verbatim>\<open>streamRef\<close>
  holds, and there is at most one; at most one call of \<^verbatim>\<open>initCamera\<close> is waiting, only
  under the raised flag, and while it waits for \<^verbatim>\<open>getUserMedia\<close> no stream is held; a
  stream attached to the video is the held one.
\<close>

fun held_ok :: "nat list \<Rightarrow> nat option \<Rightarrow> bool" where
  "held_ok [] held = True"
| "held_ok [x] held = (held = Some x)"
| "held_ok (x # y # xs) held = False"

fun calls_ok :: "(nat \<times> nat \<times> phase) list \<Rightarrow> bool \<Rightarrow> nat option \<Rightarrow> bool" where
  "calls_ok [] flag held = True"
| "calls_ok [(i, k, ph)] flag held = (flag \<and> (ph \<noteq> Await_gum \<or> held = None))"
| "calls_ok (c # d # cs) flag held = False"

fun attached_ok :: "nat option option \<Rightarrow> nat option \<Rightarrow> bool" where
  "attached_ok (Some (Some x)) held = (held = Some x)"
| "attached_ok v held = True"

definition cv_inv :: "camera_view \<Rightarrow> bool" where
  "cv_inv s =
     (held_ok (live s) (streamRef s) \<and>
      calls_ok (calls s) (initializingRef s) (streamRef s) \<and>
      attached_ok (video s) (streamRef s))"

text \<open>No stream is live, none is held and none is attached to the video.\<close>

definition nothing_attached :: "camera_view \<Rightarrow> bool" where
  "nothing_attached s =
     (live s = [] \<and> streamRef s = None \<and> (video s = None \<or> video s = Some None))"

text \<open>
  Every run of the effect has been cleaned up; and the fact that then no stream is live
  or held.
\<close>

definition torn_down :: "camera_view \<Rightarrow> bool" where
  "torn_down s = list_all (\<lambda>r. \<not> mounted r) (runs s)"

definition torn_down_ok :: "camera_view \<Rightarrow> bool" where
  "torn_down_ok s = (\<not> torn_down s \<or> (live s = [] \<and> streamRef s = None))"

text \<open>
  Counting the attempts of one effect run. The delays of the timeouts a step arms; the
  states with one effect run, whose single timeout or waiting call stands for the attempt
  in progress; how many \<^verbatim>\<open>getUserMedia\<close> calls and how many retries such a state can
  still make; and what one step may use up of both.
\<close>

fun delays_of :: "effect list \<Rightarrow> nat list" where
  "delays_of [] = []"
| "delays_of (Set_timeout ms # effs) = ms # delays_of effs"
| "delays_of (e # effs) = delays_of effs"

fun is_effect_run :: "cv_event \<Rightarrow> bool" where
  "is_effect_run (Effect_runs d) = True"
| "is_effect_run ev = False"

definition single_run :: "camera_view \<Rightarrow> bool" where
  "single_run s =
     (length (runs s) = 1 \<and> length (timeouts s) + length (calls s) \<le> 1 \<and>
      retryCount (runs s ! 0) \<le> MAX_RETRIES \<and>
      list_all (\<lambda>t. snd t = 0) (timeouts s) \<and> list_all (\<lambda>c. fst (snd c) = 0) (calls s))"

definition attempts_left :: "camera_view \<Rightarrow> nat" where
  "attempts_left s =
     (if timeouts s \<noteq> [] then Suc MAX_RETRIES - retryCount (runs s ! 0)
      else if calls s \<noteq> [] then MAX_RETRIES - retryCount (runs s ! 0) else 0)"

definition retries_left :: "camera_view \<Rightarrow> nat" where
  "retries_left s =
     (if timeouts s \<noteq> [] \<or> calls s \<noteq> [] then MAX_RETRIES - retryCount (runs s ! 0) else 0)"

definition step_ok :: "camera_view \<Rightarrow> camera_view \<times> effect list \<Rightarrow> bool" where
  "step_ok s r =
     (single_run (fst r) \<and>
      probes_of (snd r) + attempts_left (fst r) \<le> attempts_left s \<and>
      length (delays_of (snd r)) + retries_left (fst r) \<le> retries_left s \<and>
      list_all (\<lambda>ms. ms = 3000) (delays_of (snd r)))"

definition retries_ok :: "camera_view \<Rightarrow> bool" where
  "retries_ok s = list_all (\<lambda>r. retryCount r \<le> MAX_RETRIES) (runs s)"

section \<open>Runs of the page and example inputs\<close>

text \<open>
  The page's counters change only through \<^verbatim>\<open>handleCapture\<close> and
  \<^verbatim>\<open>handleCameraSwitch\<close>; a run of the page is a sequence of such calls.
\<close>

datatype index_event = Capture nat | Switch nat

fun index_step :: "index_state \<Rightarrow> index_event \<Rightarrow> index_state" where
  "index_step s (Capture i) = handleCapture i s"
| "index_step s (Switch i) = handleCameraSwitch i s"

fun event_slot :: "index_event \<Rightarrow> nat" where
  "event_slot (Capture i) = i"
| "event_slot (Switch i) = i"

fun valid_count :: "jsnum \<Rightarrow> bool" where
  "valid_count (Num c) = (0 \<le> c \<and> c \<le> 15)"
| "valid_count NaN = False"
| "valid_count Undefined = False"

definition counters_in_range :: "index_state \<Rightarrow> bool" where
  "counters_in_range s =
     (length (captureCounts s) = 3 \<and> list_all valid_count (captureCounts s))"



text \<open>Whether a request carries the service's \<^verbatim>\<open>config\<close> in its body.\<close>

fun carries_config :: "request \<Rightarrow> bool" where
  "carries_config (Detect_markers url img cameraIndex c) = (c = Some config)"
| "carries_config (Start_calibration url cameraIndices c) = (c = config)"
| "carries_config r = False"

fun without_config :: "request \<Rightarrow> bool" where
  "without_config (Detect_markers url img cameraIndex c) = (c = None)"
| "without_config r = False"

text \<open>Inputs for the worked examples below.\<close>

definition page_with :: "jsnum list \<Rightarrow> index_state" where
  "page_with counts =
     \<lparr>currentStep = 1, currentCamera = 0, captureCounts = counts, isCapturing = False\<rparr>"


definition ready :: intrinsic_state where
  "ready = \<lparr>capturing = False, streamReady = True, cameraError = None\<rparr>"

definition three_devices :: "MediaDeviceInfo list" where
  "three_devices =
     [\<lparr>deviceId = ''a'', kind = ''videoinput'', label = ''A''\<rparr>,
      \<lparr>deviceId = ''b'', kind = ''videoinput'', label = ''B''\<rparr>,
      \<lparr>deviceId = ''c'', kind = ''videoinput'', label = ''C''\<rparr>]"

definition confirmed_reply :: "CalibrationResult http" where
  "confirmed_reply =
     Response True 200
       (Inr \<lparr>success = True, message = None, detected = Some True,
             markers = Some \<lparr>corners = None, ids = Some [1, 2, 3, 4]\<rparr>\<rparr>)"

definition not_detected_reply :: "CalibrationResult http" where
  "not_detected_reply =
     Response True 200
       (Inr \<lparr>success = True, message = None, detected = Some False, markers = None\<rparr>)"

definition frame_env :: "CalibrationResult http \<Rightarrow> capture_env" where
  "frame_env reply =
     \<lparr>video_present = True, canvas_present = True, ctx_present = True, image = ''img'',
      detect_reply = reply\<rparr>"

definition browser_api :: api_env where
  "browser_api = \<lparr>window_url = None, process_url = Some None\<rparr>"

definition progress_reply :: "int \<Rightarrow> progress_data http" where
  "progress_reply p =
     Response True 200 (Inr \<lparr>is_running = True, data_progress = p, data_message = None\<rparr>)"

definition eight_failures :: "cv_event list" where
  "eight_failures =
     [Timeout_fires 1, Gum_rejects 0 (Error [Str ''busy'']),
      Timeout_fires 2, Gum_rejects 1 (Error [Str ''busy'']),
      Timeout_fires 3, Gum_rejects 2 (Error [Str ''busy'']),
      Timeout_fires 4, Gum_rejects 3 (Error [Str ''busy'']),
      Timeout_fires 5, Gum_rejects 4 (Error [Str ''busy'']),
      Timeout_fires 6, Gum_rejects 5 (Error [Str ''busy'']),
      Timeout_fires 7, Gum_rejects 6 (Error [Str ''busy'']),
      Timeout_fires 8, Gum_rejects 7 (Error [Str ''last''])]"

definition view_at_retry_limit :: camera_view where
  "view_at_retry_limit =
     camera_view_init
       \<lparr>runs := [\<lparr>run_deviceId = Some ''a'', mounted = True, retryCount = 7,
                  retryTimeout = Some 8\<rparr>]\<rparr>"

definition cam_with :: "CalibrationResult http \<Rightarrow> camera_env" where
  "cam_with reply =
     \<lparr>cam_video = True, cam_ctx = True, service_ctx = True, cam_image = ''img'',
      cam_reply = reply\<rparr>"

section \<open>Array reads after array writes\<close>

lemma js_get_js_set_same: "js_get (js_set xs i v) i = v"
  by (simp add: js_get_def js_set_def nth_append)

lemma js_get_js_set_other: "j \<noteq> i \<Longrightarrow> js_get (js_set xs i v) j = js_get xs j"
  by (auto simp: js_get_def js_set_def nth_append nth_Cons')

lemma length_js_set_in_range: "i < length xs \<Longrightarrow> length (js_set xs i v) = length xs"
  by (simp add: js_set_def)

section \<open>Switching the camera\<close>

text \<open>
  Claim C3. For every slot index \<open>i\<close>, \<^verbatim>\<open>switchCamera(i)\<close> (the page's
  \<^verbatim>\<open>handleCameraSwitch\<close>) makes \<open>i\<close> the active slot and resets the counter of slot
  \<open>i\<close> to 0; the counter of every other slot \<open>j\<close> reads as it did before, and nothing
  else of the page's state changes.
\<close>

theorem switchCamera_resets_only_its_slot:
  "currentCamera (handleCameraSwitch i s) = i \<and>
   js_get (captureCounts (handleCameraSwitch i s)) i = Num 0 \<and>
   (\<forall>j. j \<noteq> i \<longrightarrow>
      js_get (captureCounts (handleCameraSwitch i s)) j = js_get (captureCounts s) j) \<and>
   currentStep (handleCameraSwitch i s) = currentStep s \<and>
   isCapturing (handleCameraSwitch i s) = isCapturing s"
  by (simp add: handleCameraSwitch_def js_get_js_set_same js_get_js_set_other)

theorem switchCamera_resets_only_its_slot_witness:
  "handleCameraSwitch 1
     \<lparr>currentStep = 1, currentCamera = 0,
      captureCounts = [Num 7, Num 9, Num 15], isCapturing = False\<rparr>
   = \<lparr>currentStep = 1, currentCamera = 1,
      captureCounts = [Num 7, Num 0, Num 15], isCapturing = False\<rparr> \<and>
   js_get (captureCounts (handleCameraSwitch 1
     \<lparr>currentStep = 1, currentCamera = 0,
      captureCounts = [Num 7, Num 9, Num 15], isCapturing = False\<rparr>)) 2 = Num 15"
  using switchCamera_resets_only_its_slot
    [of 1 "\<lparr>currentStep = 1, currentCamera = 0,
            captureCounts = [Num 7, Num 9, Num 15], isCapturing = False\<rparr>"]
  by (simp add: handleCameraSwitch_def js_set_def js_get_def)

section \<open>The capture counters stay in range\<close>

lemma valid_count_capture: "valid_count v \<Longrightarrow> valid_count (js_min15 (js_plus1 v))"
  by (cases v) auto

lemma list_all_update: "list_all P xs \<Longrightarrow> P v \<Longrightarrow> list_all P (xs[i := v])"
  by (induction xs arbitrary: i) (auto split: nat.splits)

lemma list_all_nth: "list_all P xs \<Longrightarrow> i < length xs \<Longrightarrow> P (xs ! i)"
  by (simp add: list_all_length)

lemma step_in_range:
  assumes r: "counters_in_range s" and slot: "event_slot ev < 3"
  shows "counters_in_range (index_step s ev)"
proof (cases ev)
  case (Capture i)
  then have i: "i < length (captureCounts s)"
    using r slot by (simp add: counters_in_range_def)
  have "valid_count (js_min15 (js_plus1 (captureCounts s ! i)))"
    using r i by (simp add: counters_in_range_def valid_count_capture list_all_nth)
  then show ?thesis
    using r i Capture
    by (simp add: counters_in_range_def handleCapture_def js_set_def js_get_def list_all_update)
next
  case (Switch i)
  then have i: "i < length (captureCounts s)"
    using r slot by (simp add: counters_in_range_def)
  show ?thesis
    using r i Switch
    by (simp add: counters_in_range_def handleCameraSwitch_def js_set_def list_all_update)
qed

lemma run_in_range:
  "counters_in_range s \<Longrightarrow> list_all (\<lambda>ev. event_slot ev < 3) evs \<Longrightarrow>
   counters_in_range (foldl index_step s evs)"
  by (induction evs arbitrary: s) (auto simp: step_in_range)













section \<open>The counter moves only on a confirmed detection\<close>

lemma captureAndDetect_try_called:
  "captureAndDetect_try i c env = (r, called, effs) \<Longrightarrow> called \<Longrightarrow> backend_confirmed env"
  by (auto simp: captureAndDetect_try_def backend_confirmed_def Let_def
      split: if_splits http.splits sum.splits)

lemma slot_captureAndDetect_counts:
  "captureCounts (fst (fst (slot_captureAndDetect i devs env ps))) \<noteq> captureCounts (fst ps) \<Longrightarrow>
   backend_confirmed env"
  by (auto simp: slot_captureAndDetect_def captureAndDetect_def
      split: prod.splits if_splits dest: captureAndDetect_try_called)

text \<open>
  Claim C8. A capture attempt on slot \<open>i\<close>, run through the handler or through the
  button, changes the page's counters only when the backend confirmed the detection (an
  ok response whose body reports \<^verbatim>\<open>success\<close> and \<^verbatim>\<open>detected\<close>). On a network error, a
  response that is not ok, a body that does not parse, a reported failure or a
  non-detection the counters are what they were.
\<close>

theorem counter_changes_only_on_confirmed_detection:
  "(captureCounts (fst (fst (slot_captureAndDetect i devs env ps))) \<noteq> captureCounts (fst ps)
      \<longrightarrow> backend_confirmed env) \<and>
   (captureCounts (fst (fst (slot_click_capture i devs env ps))) \<noteq> captureCounts (fst ps)
      \<longrightarrow> backend_confirmed env) \<and>
   (\<not> backend_confirmed env \<longrightarrow>
      captureCounts (fst (fst (slot_captureAndDetect i devs env ps))) = captureCounts (fst ps) \<and>
      captureCounts (fst (fst (slot_click_capture i devs env ps))) = captureCounts (fst ps))"
  using slot_captureAndDetect_counts[of i devs env ps]
  by (auto simp: slot_click_capture_def click_capture_def slot_captureAndDetect_def)

theorem counter_changes_only_on_confirmed_detection_witness:
  "captureCounts (fst (fst (slot_click_capture 1 three_devices (frame_env confirmed_reply)
      (page_with [Num 0, Num 3, Num 0], ready)))) = [Num 0, Num 4, Num 0] \<and>
   backend_confirmed (frame_env confirmed_reply) \<and>
   \<not> backend_confirmed (frame_env not_detected_reply) \<and>
   captureCounts (fst (fst (slot_click_capture 1 three_devices (frame_env not_detected_reply)
      (page_with [Num 0, Num 3, Num 0], ready)))) = [Num 0, Num 3, Num 0] \<and>
   \<not> backend_confirmed (frame_env (Rejected (Error [Str ''Failed to fetch'']))) \<and>
   captureCounts (fst (fst (slot_captureAndDetect 1 three_devices
      (frame_env (Rejected (Error [Str ''Failed to fetch''])))
      (page_with [Num 0, Num 3, Num 0], ready)))) = [Num 0, Num 3, Num 0]"
  using counter_changes_only_on_confirmed_detection
    [of 1 three_devices "frame_env confirmed_reply" "(page_with [Num 0, Num 3, Num 0], ready)"]
    counter_changes_only_on_confirmed_detection
    [of 1 three_devices "frame_env not_detected_reply" "(page_with [Num 0, Num 3, Num 0], ready)"]
    counter_changes_only_on_confirmed_detection
    [of 1 three_devices "frame_env (Rejected (Error [Str ''Failed to fetch'']))"
        "(page_with [Num 0, Num 3, Num 0], ready)"]
  by (simp add: slot_click_capture_def click_capture_def capture_button_disabled_def
      slot_captureAndDetect_def captureAndDetect_def captureAndDetect_try_def
      backend_confirmed_def frame_env_def confirmed_reply_def not_detected_reply_def
      page_with_def ready_def three_devices_def handleCapture_def js_get_def js_set_def
      draw_markers_def totalRequiredImages_def)

section \<open>The extrinsic capture round\<close>

lemma startCalibration_returns:
  "\<exists>r s' effs. startCalibration api cameraIndices reply s = (Inr r, s', effs)"
  by (auto simp: startCalibration_def split: prod.splits sum.splits)

lemma requests_of_append: "requests_of (xs @ ys) = requests_of xs @ requests_of ys"
  by (induction xs rule: requests_of.induct) auto

lemma detectMarkers_try_requests:
  "list_all carries_config (requests_of (snd (detectMarkers_try api ctx img i reply)))"
  by (auto simp: detectMarkers_try_def Let_def split: sum.splits http.splits)

lemma detectMarkers_requests:
  "list_all carries_config (requests_of (snd (detectMarkers api ctx img i reply)))"
  using detectMarkers_try_requests[of api ctx img i reply]
  by (auto simp: detectMarkers_def requests_of_append split: prod.splits sum.splits)

lemma detectionPromise_requests:
  "list_all carries_config (requests_of (snd (detectionPromise api cams i)))"
  by (simp add: detectionPromise_def detectMarkers_requests)

lemma detectionPromise_no_start:
  "\<not> list_ex is_start_request (requests_of (snd (detectionPromise api cams i)))"
  by (auto simp: detectionPromise_def detectMarkers_def detectMarkers_try_def Let_def
      requests_of_append split: prod.splits sum.splits http.splits if_splits)

lemma startCalibration_requests:
  "list_all carries_config (requests_of (snd (snd (startCalibration api cameraIndices reply s))))"
  by (auto simp: startCalibration_def startCalibration_try_def startProgressPolling_def Let_def
      requests_of_append split: prod.splits sum.splits http.splits option.splits)

lemma confirmed_url: "detection_confirmed api cams i \<Longrightarrow> \<exists>u. getCalibrationApiUrl api = Inr u"
  by (auto simp: detection_confirmed_def detectionPromise_def detectMarkers_def
      detectMarkers_try_def split: if_splits sum.splits prod.splits)

lemma startCalibration_sends:
  "getCalibrationApiUrl api = Inr u \<Longrightarrow>
   list_ex is_start_request (requests_of (snd (snd (startCalibration api cameraIndices reply s))))"
  by (auto simp: startCalibration_def startCalibration_try_def Let_def requests_of_append
      split: prod.splits sum.splits http.splits)

lemma captureImage_try_all:
  "all_detected api cams \<Longrightarrow>
   \<exists>r svc' effs.
     startCalibration api selectedCameras reply svc = (Inr r, svc', effs) \<and>
     captureImage_try api cams reply svc =
       (Inr (),
        \<lparr>progress_status = Complete, progress_value = 100,
         progress_text = [Str ''Extrinsic calibration completed successfully for all cameras'']\<rparr>,
        svc',
        [Set_progress Detecting 0] @
        concat (map snd (map (detectionPromise api cams) selectedCameras)) @
        [Set_progress Calibrating 50] @ effs @
        [Set_progress Complete 100,
         Toast ''Success''
           [Str ''Markers detected and extrinsic calibration completed for all cameras'']
           Default])"
  using startCalibration_returns[of api selectedCameras reply svc]
  by (clarsimp simp: all_detected_def detection_confirmed_def captureImage_try_def
      selectedCameras_def Let_def split: sum.splits)

lemma captureImage_try_not_all:
  "\<not> all_detected api cams \<Longrightarrow>
   \<exists>e p. captureImage_try api cams reply svc =
     (Inl e, p, svc,
      [Set_progress Detecting 0] @
      concat (map snd (map (detectionPromise api cams) selectedCameras)))"
  by (cases "fst (detectionPromise api cams 0)"; cases "fst (detectionPromise api cams 1)";
      cases "fst (detectionPromise api cams 2)")
     (auto simp: all_detected_def detection_confirmed_def captureImage_try_def
       selectedCameras_def Let_def)

lemma startCalibration_accepted:
  "getCalibrationApiUrl api = Inr u \<Longrightarrow>
   fst (snd (startCalibration api cameraIndices (Response True st (Inr body)) s)) =
     fst (startProgressPolling (s\<lparr>calibrating := True\<rparr>))"
  by (simp add: startCalibration_def startCalibration_try_def Let_def split: prod.splits)

lemma polling_started:
  "calibrating (fst (startProgressPolling (s\<lparr>calibrating := True\<rparr>))) \<and>
   progressInterval (fst (startProgressPolling (s\<lparr>calibrating := True\<rparr>))) = Some (next_handle s) \<and>
   next_handle s \<in> set (intervals (fst (startProgressPolling (s\<lparr>calibrating := True\<rparr>))))"
  by (simp add: startProgressPolling_def Let_def split: option.splits)

lemma start_request_iff_all_detected:
  "list_ex is_start_request (requests_of (snd (captureImage api cams start_reply es))) =
     all_detected api cams \<and>
   (\<not> all_detected api cams \<longrightarrow> snd (fst (captureImage api cams start_reply es)) = snd es)"
proof (cases "all_detected api cams")
  case True
  then obtain u where u: "getCalibrationApiUrl api = Inr u"
    using confirmed_url[of api cams 0] by (auto simp: all_detected_def)
  from captureImage_try_all[OF True, of start_reply "snd es"] obtain r svc' effs where
    s: "startCalibration api selectedCameras start_reply (snd es) = (Inr r, svc', effs)" and
    t: "captureImage_try api cams start_reply (snd es) =
          (Inr (),
           \<lparr>progress_status = Complete, progress_value = 100,
            progress_text = [Str ''Extrinsic calibration completed successfully for all cameras'']\<rparr>,
           svc',
           [Set_progress Detecting 0] @
           concat (map snd (map (detectionPromise api cams) selectedCameras)) @
           [Set_progress Calibrating 50] @ effs @
           [Set_progress Complete 100,
            Toast ''Success''
              [Str ''Markers detected and extrinsic calibration completed for all cameras'']
              Default])"
    by blast
  have "list_ex is_start_request (requests_of effs)"
    using startCalibration_sends[OF u, of selectedCameras start_reply "snd es"] s by simp
  then show ?thesis
    using True t by (simp add: captureImage_def requests_of_append)
next
  case False
  from captureImage_try_not_all[OF False, of start_reply "snd es"] obtain e p where
    t: "captureImage_try api cams start_reply (snd es) =
          (Inl e, p, snd es,
           [Set_progress Detecting 0] @
           concat (map snd (map (detectionPromise api cams) selectedCameras)))"
    by blast
  have "\<not> list_ex is_start_request
          (requests_of (concat (map snd (map (detectionPromise api cams) selectedCameras))))"
    using detectionPromise_no_start[of api cams 0] detectionPromise_no_start[of api cams 1]
      detectionPromise_no_start[of api cams 2]
    by (auto simp: selectedCameras_def requests_of_append list_ex_iff)
  then show ?thesis
    using False t by (simp add: captureImage_def requests_of_append)
qed

lemma accepted_start_runs_job:
  assumes a: "all_detected api cams"
  shows "calibrating (snd (fst (captureImage api cams (Response True st (Inr body)) es))) \<and>
         progressInterval (snd (fst (captureImage api cams (Response True st (Inr body)) es)))
           = Some (next_handle (snd es))"
proof -
  obtain u where u: "getCalibrationApiUrl api = Inr u"
    using a confirmed_url[of api cams 0] by (auto simp: all_detected_def)
  from captureImage_try_all[OF a, of "Response True st (Inr body)" "snd es"]
  obtain r svc' effs where
    s: "startCalibration api selectedCameras (Response True st (Inr body)) (snd es)
          = (Inr r, svc', effs)" and
    t: "fst (snd (snd (captureImage_try api cams (Response True st (Inr body)) (snd es)))) = svc'" and
    t': "fst (captureImage_try api cams (Response True st (Inr body)) (snd es)) = Inr ()"
    by fastforce
  have "svc' = fst (startProgressPolling ((snd es)\<lparr>calibrating := True\<rparr>))"
    using s startCalibration_accepted[OF u, of selectedCameras st body "snd es"] by simp
  moreover have "snd (fst (captureImage api cams (Response True st (Inr body)) es)) = svc'"
    using t t' by (auto simp: captureImage_def split: prod.splits sum.splits)
  ultimately show ?thesis
    using polling_started[of "snd es"] by simp
qed

text \<open>
  Claim C2. One round of the extrinsic capture (\<^verbatim>\<open>captureImage\<close>) starts a calibration
  job, that is, calls \<^verbatim>\<open>startCalibration\<close> and so sends the \<^verbatim>\<open>/start_calibration\<close>
  request, if and only if all three detection calls returned \<^verbatim>\<open>success && detected\<close>.
  When one of the three fails (two of three succeed, say) no start request is sent and the
  service is left as it was: not calibrating, no polling timer. When all three succeed and
  the backend accepts the start, the service is calibrating with a fresh polling timer.
\<close>

theorem captureImage_starts_job_iff_all_detected:
  "list_ex is_start_request (requests_of (snd (captureImage api cams start_reply es))) =
     all_detected api cams \<and>
   (\<not> all_detected api cams \<longrightarrow> snd (fst (captureImage api cams start_reply es)) = snd es) \<and>
   (all_detected api cams \<longrightarrow>
      calibrating (snd (fst (captureImage api cams (Response True st (Inr body)) es))) \<and>
      progressInterval (snd (fst (captureImage api cams (Response True st (Inr body)) es)))
        = Some (next_handle (snd es)))"
  using start_request_iff_all_detected[of api cams start_reply es]
    accepted_start_runs_job[of api cams st body es]
  by blast

theorem captureImage_starts_job_iff_all_detected_witness:
  "all_detected browser_api (\<lambda>i. cam_with confirmed_reply) \<and>
   requests_of (snd (captureImage browser_api (\<lambda>i. cam_with confirmed_reply) confirmed_reply
      (extrinsic_init, service_init)))
     = [Detect_markers ''http://127.0.0.1:8000/detect_markers'' ''img'' 0 (Some config),
        Detect_markers ''http://127.0.0.1:8000/detect_markers'' ''img'' 1 (Some config),
        Detect_markers ''http://127.0.0.1:8000/detect_markers'' ''img'' 2 (Some config),
        Start_calibration ''http://127.0.0.1:8000/start_calibration'' [0, 1, 2] config] \<and>
   snd (fst (captureImage browser_api (\<lambda>i. cam_with confirmed_reply) confirmed_reply
      (extrinsic_init, service_init)))
     = \<lparr>calibrating = True, progressInterval = Some 1, intervals = [1], next_handle = 2,
        awaited = 0\<rparr> \<and>
   \<not> all_detected browser_api
       (\<lambda>i. if i = 2 then cam_with not_detected_reply else cam_with confirmed_reply) \<and>
   requests_of (snd (captureImage browser_api
       (\<lambda>i. if i = 2 then cam_with not_detected_reply else cam_with confirmed_reply)
       confirmed_reply (extrinsic_init, service_init)))
     = [Detect_markers ''http://127.0.0.1:8000/detect_markers'' ''img'' 0 (Some config),
        Detect_markers ''http://127.0.0.1:8000/detect_markers'' ''img'' 1 (Some config),
        Detect_markers ''http://127.0.0.1:8000/detect_markers'' ''img'' 2 (Some config)] \<and>
   snd (fst (captureImage browser_api
       (\<lambda>i. if i = 2 then cam_with not_detected_reply else cam_with confirmed_reply)
       confirmed_reply (extrinsic_init, service_init))) = service_init"
  using captureImage_starts_job_iff_all_detected
    [of browser_api "\<lambda>i. cam_with confirmed_reply" confirmed_reply
        "(extrinsic_init, service_init)" 200
        "\<lparr>success = True, message = None, detected = Some True,
          markers = Some \<lparr>corners = None, ids = Some [1, 2, 3, 4]\<rparr>\<rparr>"]
    captureImage_starts_job_iff_all_detected
    [of browser_api "\<lambda>i. if i = 2 then cam_with not_detected_reply else cam_with confirmed_reply"
        confirmed_reply "(extrinsic_init, service_init)"]
  by (simp add: all_detected_def detection_confirmed_def detectionPromise_def detectMarkers_def
      detectMarkers_try_def getCalibrationApiUrl_def browser_api_def cam_with_def
      confirmed_reply_def not_detected_reply_def ids_length_def config_def captureImage_def
      captureImage_try_def selectedCameras_def startCalibration_def startCalibration_try_def
      startProgressPolling_def service_init_def extrinsic_init_def Let_def)

text \<open>
  Claim C10. In every round in which all three detections returned
  \<^verbatim>\<open>success && detected\<close>, \<^verbatim>\<open>startCalibration\<close> returns a value whatever the backend
  answered (it never throws), and the component's progress record ends at status complete
  with progress 100: the effects of the round are the detection requests, the effects of
  \<^verbatim>\<open>startCalibration\<close>, and then at once the complete record, the success toast and
  the two-second timeout. The result of \<^verbatim>\<open>startCalibration\<close> is not looked at, and the
  timeout's callback leaves the progress record alone.
\<close>

theorem captureImage_ends_complete_whatever_start_returns:
  "all_detected api cams \<longrightarrow>
     (\<exists>r svc' effs.
        startCalibration api selectedCameras start_reply (snd es) = (Inr r, svc', effs) \<and>
        fst (captureImage api cams start_reply es) =
          (\<lparr>isCalibrating = True,
            calibrationProgress =
              \<lparr>progress_status = Complete, progress_value = 100,
               progress_text =
                 [Str ''Extrinsic calibration completed successfully for all cameras'']\<rparr>\<rparr>,
           svc') \<and>
        snd (captureImage api cams start_reply es) =
          [Set_progress Detecting 0] @
          concat (map snd (map (detectionPromise api cams) selectedCameras)) @
          [Set_progress Calibrating 50] @ effs @
          [Set_progress Complete 100,
           Toast ''Success''
             [Str ''Markers detected and extrinsic calibration completed for all cameras'']
             Default,
           Set_timeout 2000] \<and>
        calibrationProgress (captureImage_timeout seen (fst (fst (captureImage api cams start_reply es))))
          = \<lparr>progress_status = Complete, progress_value = 100,
             progress_text =
               [Str ''Extrinsic calibration completed successfully for all cameras'']\<rparr>)"
proof
  assume a: "all_detected api cams"
  from captureImage_try_all[OF a, of start_reply "snd es"] obtain r svc' effs where
    s: "startCalibration api selectedCameras start_reply (snd es) = (Inr r, svc', effs)" and
    t: "captureImage_try api cams start_reply (snd es) =
          (Inr (),
           \<lparr>progress_status = Complete, progress_value = 100,
            progress_text = [Str ''Extrinsic calibration completed successfully for all cameras'']\<rparr>,
           svc',
           [Set_progress Detecting 0] @
           concat (map snd (map (detectionPromise api cams) selectedCameras)) @
           [Set_progress Calibrating 50] @ effs @
           [Set_progress Complete 100,
            Toast ''Success''
              [Str ''Markers detected and extrinsic calibration completed for all cameras'']
              Default])"
    by blast
  show "\<exists>r svc' effs.
        startCalibration api selectedCameras start_reply (snd es) = (Inr r, svc', effs) \<and>
        fst (captureImage api cams start_reply es) =
          (\<lparr>isCalibrating = True,
            calibrationProgress =
              \<lparr>progress_status = Complete, progress_value = 100,
               progress_text =
                 [Str ''Extrinsic calibration completed successfully for all cameras'']\<rparr>\<rparr>,
           svc') \<and>
        snd (captureImage api cams start_reply es) =
          [Set_progress Detecting 0] @
          concat (map snd (map (detectionPromise api cams) selectedCameras)) @
          [Set_progress Calibrating 50] @ effs @
          [Set_progress Complete 100,
           Toast ''Success''
             [Str ''Markers detected and extrinsic calibration completed for all cameras'']
             Default,
           Set_timeout 2000] \<and>
        calibrationProgress (captureImage_timeout seen (fst (fst (captureImage api cams start_reply es))))
          = \<lparr>progress_status = Complete, progress_value = 100,
             progress_text =
               [Str ''Extrinsic calibration completed successfully for all cameras'']\<rparr>"
    using s t by (simp add: captureImage_def captureImage_timeout_def)
qed

theorem captureImage_ends_complete_whatever_start_returns_witness:
  "all_detected browser_api (\<lambda>i. cam_with confirmed_reply) \<and>
   fst (startCalibration browser_api selectedCameras (Rejected (Error [Str ''Failed to fetch'']))
          service_init)
     = Inr \<lparr>success = False, message = Some [Str ''Failed to fetch''], detected = None,
            markers = None\<rparr> \<and>
   fst (captureImage browser_api (\<lambda>i. cam_with confirmed_reply)
          (Rejected (Error [Str ''Failed to fetch''])) (extrinsic_init, service_init))
     = (\<lparr>isCalibrating = True,
         calibrationProgress =
           \<lparr>progress_status = Complete, progress_value = 100,
            progress_text =
              [Str ''Extrinsic calibration completed successfully for all cameras'']\<rparr>\<rparr>,
        service_init) \<and>
   fst (startCalibration browser_api selectedCameras confirmed_reply service_init)
     = Inr \<lparr>success = True,
            message = Some [Str ''Extrinsic calibration started with '', N 3,
                            Str '' cameras at '', N 1280, Str ''x'', N 720],
            detected = None, markers = None\<rparr> \<and>
   progress_status (calibrationProgress (fst (fst (captureImage browser_api
      (\<lambda>i. cam_with confirmed_reply) confirmed_reply (extrinsic_init, service_init)))))
     = Complete"
  using captureImage_ends_complete_whatever_start_returns
    [of browser_api "\<lambda>i. cam_with confirmed_reply" "Rejected (Error [Str ''Failed to fetch''])"
        "(extrinsic_init, service_init)" Idle]
    captureImage_ends_complete_whatever_start_returns
    [of browser_api "\<lambda>i. cam_with confirmed_reply" confirmed_reply
        "(extrinsic_init, service_init)" Idle]
  by (simp add: all_detected_def detection_confirmed_def detectionPromise_def detectMarkers_def
      detectMarkers_try_def getCalibrationApiUrl_def browser_api_def cam_with_def
      confirmed_reply_def ids_length_def config_def captureImage_def message_of_def
      captureImage_try_def selectedCameras_def startCalibration_def startCalibration_try_def
      startProgressPolling_def service_init_def extrinsic_init_def Let_def)

section \<open>Which requests carry the configuration\<close>

lemma captureImage_requests:
  "list_all carries_config (requests_of (snd (captureImage api cams start_reply es)))"
proof (cases "all_detected api cams")
  case True
  from captureImage_try_all[OF True, of start_reply "snd es"] obtain r svc' effs where
    s: "startCalibration api selectedCameras start_reply (snd es) = (Inr r, svc', effs)" and
    t: "captureImage_try api cams start_reply (snd es) =
          (Inr (),
           \<lparr>progress_status = Complete, progress_value = 100,
            progress_text = [Str ''Extrinsic calibration completed successfully for all cameras'']\<rparr>,
           svc',
           [Set_progress Detecting 0] @
           concat (map snd (map (detectionPromise api cams) selectedCameras)) @
           [Set_progress Calibrating 50] @ effs @
           [Set_progress Complete 100,
            Toast ''Success''
              [Str ''Markers detected and extrinsic calibration completed for all cameras'']
              Default])"
    by blast
  have "list_all carries_config (requests_of effs)"
    using startCalibration_requests[of api selectedCameras start_reply "snd es"] s by simp
  then show ?thesis
    using t detectionPromise_requests[of api cams 0] detectionPromise_requests[of api cams 1]
      detectionPromise_requests[of api cams 2]
    by (simp add: captureImage_def requests_of_append selectedCameras_def)
next
  case False
  from captureImage_try_not_all[OF False, of start_reply "snd es"] obtain e p where
    t: "captureImage_try api cams start_reply (snd es) =
          (Inl e, p, snd es,
           [Set_progress Detecting 0] @
           concat (map snd (map (detectionPromise api cams) selectedCameras)))"
    by blast
  show ?thesis
    using t detectionPromise_requests[of api cams 0] detectionPromise_requests[of api cams 1]
      detectionPromise_requests[of api cams 2]
    by (simp add: captureImage_def requests_of_append selectedCameras_def)
qed

lemma requests_of_strokes: "requests_of (map (\<lambda>c. Stroke_markers) cs) = []"
  by (induction cs) auto

lemma draw_markers_requests: "draw_markers result = Inr strokes \<Longrightarrow> requests_of strokes = []"
  by (auto simp: draw_markers_def requests_of_strokes split: option.splits if_splits)

lemma captureAndDetect_try_requests:
  "list_all without_config (requests_of (snd (snd (captureAndDetect_try i c env))))"
  by (auto simp: captureAndDetect_try_def Let_def requests_of_append draw_markers_requests
      split: http.splits sum.splits)

lemma captureAndDetect_requests:
  "list_all without_config
     (requests_of (snd (captureAndDetect i c devs onCapture env ps)))"
  using captureAndDetect_try_requests[of i c env]
  by (auto simp: captureAndDetect_def requests_of_append split: prod.splits sum.splits)

text \<open>
  Claim C9, as the code has it. Every request sent through the calibration service, which
  is every \<^verbatim>\<open>/detect_markers\<close> and \<^verbatim>\<open>/start_calibration\<close> request of the extrinsic
  round, carries the service's fixed configuration (3 cameras, 1280 by 720, marker size
  0.05, at least 4 markers, reprojection error 1.0) in its body. The intrinsic capture
  sends its \<^verbatim>\<open>/detect_markers\<close> request itself, with the image and the camera index only.
\<close>

theorem service_requests_carry_config:
  "list_all carries_config (requests_of (snd (detectMarkers api ctx img cameraIndex reply))) \<and>
   list_all carries_config
     (requests_of (snd (snd (startCalibration api cameraIndices start_reply s)))) \<and>
   list_all carries_config (requests_of (snd (captureImage api cams start_reply es))) \<and>
   config =
     \<lparr>numCameras = 3, resolution = (1280, 720), markerSize = 0.05,
      minMarkersDetected = 4, maxReprojError = 1\<rparr> \<and>
   list_all without_config (requests_of (snd (slot_captureAndDetect i devs env ps))) \<and>
   list_all without_config (requests_of (snd (slot_click_capture i devs env ps)))"
  using detectMarkers_requests[of api ctx img cameraIndex reply]
    startCalibration_requests[of api cameraIndices start_reply s]
    captureImage_requests[of api cams start_reply es]
    captureAndDetect_requests[of i "js_get (captureCounts (fst ps)) i" devs "handleCapture i" env ps]
  by (simp add: config_def slot_captureAndDetect_def slot_click_capture_def click_capture_def)

theorem service_requests_carry_config_witness:
  "requests_of (snd (detectMarkers browser_api True ''img'' 2 confirmed_reply))
     = [Detect_markers ''http://127.0.0.1:8000/detect_markers'' ''img'' 2
          (Some \<lparr>numCameras = 3, resolution = (1280, 720), markerSize = 0.05,
                 minMarkersDetected = 4, maxReprojError = 1\<rparr>)] \<and>
   requests_of (snd (snd (startCalibration browser_api [0, 1, 2] confirmed_reply service_init)))
     = [Start_calibration ''http://127.0.0.1:8000/start_calibration'' [0, 1, 2]
          \<lparr>numCameras = 3, resolution = (1280, 720), markerSize = 0.05,
           minMarkersDetected = 4, maxReprojError = 1\<rparr>] \<and>
   list_all carries_config
     (requests_of (snd (detectMarkers browser_api True ''img'' 2 confirmed_reply)))"
  using service_requests_carry_config
    [of browser_api True "''img''" 2 confirmed_reply "[0, 1, 2]" confirmed_reply service_init
        "\<lambda>i. cam_with confirmed_reply" "(extrinsic_init, service_init)" 0 three_devices
        "frame_env confirmed_reply" "(page_with [Num 0, Num 0, Num 0], ready)"]
  by (simp add: detectMarkers_def detectMarkers_try_def getCalibrationApiUrl_def browser_api_def
      confirmed_reply_def ids_length_def config_def startCalibration_def
      startCalibration_try_def startProgressPolling_def service_init_def Let_def)

text \<open>
  Claim C9 as stated fails on the intrinsic capture: the body of its
  \<^verbatim>\<open>/detect_markers\<close> request holds no configuration.
\<close>

theorem intrinsic_detect_request_has_no_config:
  "requests_of (snd (slot_captureAndDetect 0 three_devices (frame_env confirmed_reply)
      (page_with [Num 0, Num 0, Num 0], ready)))
     = [Detect_markers ''http://127.0.0.1:8000/detect_markers'' ''img'' 0 None] \<and>
   \<not> list_all carries_config
       (requests_of (snd (slot_captureAndDetect 0 three_devices (frame_env confirmed_reply)
          (page_with [Num 0, Num 0, Num 0], ready))))"
  by (simp add: slot_captureAndDetect_def captureAndDetect_def captureAndDetect_try_def
      three_devices_def frame_env_def confirmed_reply_def ready_def page_with_def
      draw_markers_def js_get_def)

section \<open>Progress polling stops\<close>

lemma removeAll_owned: "list_all (\<lambda>x. x = h) xs \<Longrightarrow> removeAll h xs = []"
  by (induction xs) auto

lemma stop_owned: "timers_owned s \<Longrightarrow> polling_off (fst (stopProgressPolling s))"
  by (auto simp: timers_owned_def polling_off_def stopProgressPolling_def removeAll_owned
      list_all_iff split: option.splits)

lemma polling_off_owned: "polling_off s \<Longrightarrow> timers_owned s"
  by (simp add: polling_off_def timers_owned_def)

lemma start_polling_owned: "timers_owned s \<Longrightarrow> timers_owned (fst (startProgressPolling s))"
  by (auto simp: timers_owned_def startProgressPolling_def Let_def removeAll_owned list_all_iff
      split: option.splits)

lemma awaited_owned: "timers_owned (s\<lparr>awaited := n\<rparr>) = timers_owned s"
  by (simp add: timers_owned_def)

lemma calibrating_owned: "timers_owned (s\<lparr>calibrating := b\<rparr>) = timers_owned s"
  by (simp add: timers_owned_def)

lemma startCalibration_state:
  "fst (snd (startCalibration api cameraIndices reply s)) = s \<or>
   fst (snd (startCalibration api cameraIndices reply s))
     = fst (startProgressPolling (s\<lparr>calibrating := True\<rparr>))"
  by (auto simp: startCalibration_def startCalibration_try_def Let_def
      split: prod.splits sum.splits http.splits)

lemma startCalibration_owned:
  "timers_owned s \<Longrightarrow> timers_owned (fst (snd (startCalibration api cameraIndices reply s)))"
  using startCalibration_state[of api cameraIndices reply s]
    start_polling_owned[of "s\<lparr>calibrating := True\<rparr>"]
  by (auto simp: calibrating_owned)

lemma poll_tick_owned: "timers_owned s \<Longrightarrow> timers_owned (fst (poll_tick api s))"
  using stop_owned[of s]
  by (auto simp: poll_tick_def polling_off_owned awaited_owned split: sum.splits prod.splits)

lemma poll_reply_owned: "timers_owned s \<Longrightarrow> timers_owned (fst (poll_reply reply s))"
  using stop_owned[of "s\<lparr>awaited := awaited s - 1\<rparr>"]
  by (auto simp: poll_reply_def Let_def polling_off_owned awaited_owned
      split: sum.splits prod.splits)

lemma step_owned: "timers_owned s \<Longrightarrow> timers_owned (fst (service_step api ev s))"
  by (cases ev)
     (auto simp: service_step_def startCalibration_owned poll_tick_owned poll_reply_owned)

lemma service_run_Cons:
  "fst (service_run api (ev # evs) s) = fst (service_run api evs (fst (service_step api ev s))) \<and>
   snd (service_run api (ev # evs) s)
     = snd (service_step api ev s) @ snd (service_run api evs (fst (service_step api ev s)))"
  by (simp split: prod.splits)

lemma run_owned: "timers_owned s \<Longrightarrow> timers_owned (fst (service_run api evs s))"
proof (induction evs arbitrary: s)
  case Nil
  then show ?case by simp
next
  case (Cons ev evs)
  then show ?case
    using step_owned[of s api ev] by (simp only: service_run_Cons)
qed

lemma off_step:
  assumes off: "polling_off s" and ev: "\<not> is_start_event ev"
  shows "polling_off (fst (service_step api ev s)) \<and>
         requests_of (snd (service_step api ev s)) = []"
proof (cases ev)
  case (Start_called cameraIndices reply)
  then show ?thesis using ev by simp
next
  case (Tick h)
  then show ?thesis using off by (simp add: service_step_def polling_off_def)
next
  case (Progress_arrived reply)
  have a: "polling_off (s\<lparr>awaited := awaited s - 1\<rparr>)"
    using off by (simp add: polling_off_def)
  have b: "stopProgressPolling (s\<lparr>awaited := awaited s - 1\<rparr>) = (s\<lparr>awaited := awaited s - 1\<rparr>, [])"
    using off by (simp add: stopProgressPolling_def polling_off_def)
  show ?thesis
    using Progress_arrived off a b
    by (auto simp: service_step_def poll_reply_def Let_def split: sum.splits)
qed

lemma off_run:
  "polling_off s \<Longrightarrow> list_all (\<lambda>ev. \<not> is_start_event ev) evs \<Longrightarrow>
   polling_off (fst (service_run api evs s)) \<and> requests_of (snd (service_run api evs s)) = []"
proof (induction evs arbitrary: s)
  case Nil
  then show ?case by simp
next
  case (Cons ev evs)
  then have "polling_off (fst (service_step api ev s))"
    and "requests_of (snd (service_step api ev s)) = []"
    using off_step[of s ev api] by simp_all
  then show ?case
    using Cons by (simp only: service_run_Cons requests_of_append) simp
qed

lemma terminal_reply_stops:
  "timers_owned s \<Longrightarrow> 0 < awaited s \<Longrightarrow> poll_terminal reply \<Longrightarrow>
   polling_off (fst (service_step api (Progress_arrived reply) s))"
  using stop_owned[of "s\<lparr>awaited := awaited s - 1\<rparr>"]
  by (auto simp: service_step_def poll_reply_def poll_terminal_def Let_def awaited_owned
      split: sum.splits prod.splits)

lemma init_owned: "timers_owned service_init"
  by (simp add: timers_owned_def service_init_def)

text \<open>
  Claim C7. The polling timer is armed with a delay of 1000 ms. In every state the service
  can reach, when the answer to a progress request arrives and it reports a progress of 100
  or more, or the request failed, polling is off at once: the timer is cleared, no interval
  timer is left running and the service is no longer calibrating. From then on, whatever
  ticks and late answers follow, no progress request is sent until
  \<^verbatim>\<open>startCalibration\<close> is called again.
\<close>

theorem polling_stops_at_terminal_reply:
  "Set_interval (next_handle s) 1000 \<in> set (snd (startProgressPolling s)) \<and>
   (0 < awaited (fst (service_run api evs0 service_init)) \<and> poll_terminal reply \<and>
    list_all (\<lambda>ev. \<not> is_start_event ev) evs1 \<longrightarrow>
      polling_off (fst (service_step api (Progress_arrived reply)
                          (fst (service_run api evs0 service_init)))) \<and>
      \<not> list_ex is_progress_request
          (requests_of (snd (service_run api evs1
             (fst (service_step api (Progress_arrived reply)
                     (fst (service_run api evs0 service_init))))))))"
proof -
  have "Set_interval (next_handle s) 1000 \<in> set (snd (startProgressPolling s))"
    by (simp add: startProgressPolling_def Let_def split: option.splits)
  then show ?thesis
    using terminal_reply_stops[OF run_owned[OF init_owned, of api evs0], of reply api]
      off_run[of "fst (service_step api (Progress_arrived reply)
                         (fst (service_run api evs0 service_init)))" evs1 api]
    by auto
qed

theorem polling_stops_at_terminal_reply_witness:
  "requests_of (snd (service_run browser_api
      [Start_called [0, 1, 2] confirmed_reply, Tick 1, Progress_arrived (progress_reply 40),
       Tick 1] service_init))
     = [Start_calibration ''http://127.0.0.1:8000/start_calibration'' [0, 1, 2] config,
        Calibration_progress ''http://127.0.0.1:8000/calibration_progress'',
        Calibration_progress ''http://127.0.0.1:8000/calibration_progress''] \<and>
   0 < awaited (fst (service_run browser_api
      [Start_called [0, 1, 2] confirmed_reply, Tick 1, Progress_arrived (progress_reply 40),
       Tick 1] service_init)) \<and>
   poll_terminal (progress_reply 100) \<and>
   poll_terminal (Rejected (Error [Str ''Failed to fetch''])) \<and>
   list_all (\<lambda>ev. \<not> is_start_event ev) [Tick 1, Tick 2, Progress_arrived (progress_reply 100)] \<and>
   fst (service_step browser_api (Progress_arrived (progress_reply 100))
     (fst (service_run browser_api
        [Start_called [0, 1, 2] confirmed_reply, Tick 1, Progress_arrived (progress_reply 40),
         Tick 1] service_init)))
     = \<lparr>calibrating = False, progressInterval = None, intervals = [], next_handle = 2,
        awaited = 0\<rparr> \<and>
   snd (service_run browser_api [Tick 1, Tick 2, Progress_arrived (progress_reply 100)]
     (fst (service_step browser_api (Progress_arrived (progress_reply 100))
        (fst (service_run browser_api
           [Start_called [0, 1, 2] confirmed_reply, Tick 1,
            Progress_arrived (progress_reply 40), Tick 1] service_init))))) = []"
  using polling_stops_at_terminal_reply
    [of service_init browser_api
        "[Start_called [0, 1, 2] confirmed_reply, Tick 1, Progress_arrived (progress_reply 40),
          Tick 1]"
        "progress_reply 100" "[Tick 1, Tick 2, Progress_arrived (progress_reply 100)]"]
  by (simp add: service_step_def startCalibration_def startCalibration_try_def
      startProgressPolling_def stopProgressPolling_def poll_tick_def poll_reply_def
      getProgress_request_def getProgress_result_def getCalibrationApiUrl_def browser_api_def
      confirmed_reply_def progress_reply_def poll_terminal_def service_init_def config_def
      Let_def)

section \<open>One live stream per camera view\<close>

lemma init_inv: "cv_inv camera_view_init"
  by (simp add: cv_inv_def camera_view_init_def)

lemma held_ok_cases: "held_ok l h \<Longrightarrow> l = [] \<or> (\<exists>x. l = [x] \<and> h = Some x)"
  by (cases "(l, h)" rule: held_ok.cases) auto

lemma calls_ok_cases:
  "calls_ok cs f h \<Longrightarrow> cs = [] \<or> (\<exists>i k ph. cs = [(i, k, ph)] \<and> f \<and> (ph \<noteq> Await_gum \<or> h = None))"
  by (cases "(cs, f, h)" rule: calls_ok.cases) auto

lemma calls_ok_None: "calls_ok cs f h \<Longrightarrow> calls_ok cs f None"
  by (cases "(cs, f, h)" rule: calls_ok.cases) auto

lemma attached_ok_None: "attached_ok (Some None) h" "attached_ok None h"
  by simp_all

lemma stop_held_fields:
  "calls (fst (stop_held s)) = calls s" "video (fst (stop_held s)) = video s"
  "initializingRef (fst (stop_held s)) = initializingRef s" "runs (fst (stop_held s)) = runs s"
  "timeouts (fst (stop_held s)) = timeouts s" "next_call (fst (stop_held s)) = next_call s"
  "next_stream (fst (stop_held s)) = next_stream s" "next_timeout (fst (stop_held s)) = next_timeout s"
  "streamRef (fst (stop_held s)) = None"
  by (simp_all add: stop_held_def split: option.splits)

lemma stop_held_live: "held_ok (live s) (streamRef s) \<Longrightarrow> live (fst (stop_held s)) = []"
  by (auto simp: stop_held_def split: option.splits dest: held_ok_cases)

lemma detach_fields:
  "calls (detach s) = calls s" "live (detach s) = live s" "streamRef (detach s) = streamRef s"
  "initializingRef (detach s) = initializingRef s" "runs (detach s) = runs s"
  "timeouts (detach s) = timeouts s" "next_call (detach s) = next_call s"
  "next_stream (detach s) = next_stream s" "next_timeout (detach s) = next_timeout s"
  by (simp_all add: detach_def split: option.splits)

lemma detach_video: "video (detach s) = None \<or> video (detach s) = Some None"
  by (simp add: detach_def split: option.splits)

lemma attached_detach: "attached_ok (video (detach s)) h"
  using detach_video[of s] by auto

lemma effect_runs_inv: "cv_inv s \<Longrightarrow> cv_inv (fst (effect_runs d s))"
  by (simp add: effect_runs_def cv_inv_def)

lemma cleanup_inv: "cv_inv s \<Longrightarrow> cv_inv (fst (cleanup k s))"
proof -
  assume i: "cv_inv s"
  define s2 where "s2 = (case retryTimeout (runs s ! k) of
                  Some h \<Rightarrow> s\<lparr>runs := (runs s)[k := (runs s ! k)\<lparr>mounted := False\<rparr>], timeouts := filter (\<lambda>t. fst t \<noteq> h) (timeouts s)\<rparr>
                | None \<Rightarrow> s\<lparr>runs := (runs s)[k := (runs s ! k)\<lparr>mounted := False\<rparr>]\<rparr>)"
  have s2: "live s2 = live s" "streamRef s2 = streamRef s" "calls s2 = calls s" "video s2 = video s"
    "initializingRef s2 = initializingRef s"
    by (simp_all add: s2_def split: option.splits)
  have c: "fst (cleanup k s) = detach (fst (stop_held s2))"
    by (simp add: cleanup_def Let_def s2_def case_prod_beta split: option.splits)
  show ?thesis unfolding c using i stop_held_live[of s2] calls_ok_None[of "calls s" "initializingRef s" "streamRef s"]
    by (simp add: cv_inv_def detach_fields stop_held_fields s2 attached_detach)
qed

lemma finish_fields:
  "live (finish i s) = live s" "streamRef (finish i s) = streamRef s" "video (finish i s) = video s"
  "runs (finish i s) = runs s" "timeouts (finish i s) = timeouts s"
  by (simp_all add: finish_def)

lemma finish_calls: "calls_ok (calls s) f h \<Longrightarrow> map_of (calls s) i = Some c \<Longrightarrow> calls (finish i s) = []"
  by (auto simp: finish_def dest!: calls_ok_cases split: if_splits)

lemma finish_inv:
  "held_ok (live s) (streamRef s) \<Longrightarrow> calls_ok (calls s) f h \<Longrightarrow> attached_ok (video s) (streamRef s) \<Longrightarrow>
   map_of (calls s) i = Some c \<Longrightarrow> cv_inv (finish i s)"
  using finish_calls[of s f h i c] by (simp add: cv_inv_def finish_fields)

lemma catch_fields:
  "live (fst (initCamera_catch k e s)) = live s" "streamRef (fst (initCamera_catch k e s)) = streamRef s"
  "video (fst (initCamera_catch k e s)) = video s" "calls (fst (initCamera_catch k e s)) = calls s"
  "initializingRef (fst (initCamera_catch k e s)) = initializingRef s"
  by (simp_all add: initCamera_catch_def Let_def)

lemma fail_inv: "cv_inv s \<Longrightarrow> map_of (calls s) i = Some c \<Longrightarrow> cv_inv (fst (fail i k e s))"
  using finish_inv[of "fst (initCamera_catch k e s)" "initializingRef s" "streamRef s" i c]
  by (simp add: fail_def cv_inv_def catch_fields case_prod_beta)


lemma map_of_single: "map_of [(i, k, ph)] j = Some c \<Longrightarrow> j = i \<and> c = (k, ph)"
  by (auto split: if_splits)

lemma gum_resolved_inv:
  assumes i: "cv_inv s" and m: "map_of (calls s) i = Some (k, Await_gum)"
  shows "cv_inv (fst (gum_resolved i k s))"
proof -
  from i m obtain c: "calls s = [(i, k, Await_gum)]" and f: "initializingRef s" and h: "streamRef s = None"
    by (auto simp: cv_inv_def dest!: calls_ok_cases split: if_splits)
  from i h have l: "live s = []" by (auto simp: cv_inv_def dest!: held_ok_cases)
  from i h have a: "attached_ok (video s) None" by (simp add: cv_inv_def)
  show ?thesis
    using c f h l a by (auto simp: gum_resolved_def Let_def cv_inv_def finish_def set_phase_def split: option.splits)
qed

lemma metadata_loaded_inv:
  assumes i: "cv_inv s" and m: "map_of (calls s) i = Some (k, Await_metadata x)"
  shows "cv_inv (fst (metadata_loaded i k x s))"
proof -
  from i m obtain c: "calls s = [(i, k, Await_metadata x)]" and f: "initializingRef s"
    by (auto simp: cv_inv_def dest!: calls_ok_cases split: if_splits)
  show ?thesis
    using i c f fail_inv[OF i m, of k "Error [Str ''TypeError'']"]
    by (auto simp: metadata_loaded_def cv_inv_def set_phase_def split: option.splits)
qed

lemma play_resolved_inv:
  assumes i: "cv_inv s" and m: "map_of (calls s) i = Some (k, Await_play x)"
  shows "cv_inv (fst (play_resolved i k x s))"
proof -
  from i m obtain c: "calls s = [(i, k, Await_play x)]" and f: "initializingRef s"
    by (auto simp: cv_inv_def dest!: calls_ok_cases split: if_splits)
  show ?thesis
    using i c f by (auto simp: play_resolved_def Let_def cv_inv_def finish_def)
qed

lemma initCamera_inv:
  assumes i: "cv_inv s"
  shows "cv_inv (fst (initCamera supported k s))"
proof (cases "deviceId_falsy (runs s ! k) \<or> initializingRef s")
  case True
  then show ?thesis using i by (simp add: initCamera_def)
next
  case False
  then have c: "calls s = []" using i by (auto simp: cv_inv_def dest!: calls_ok_cases)
  show ?thesis
  proof (cases supported)
    case True
    have l: "live (fst (stop_held (s\<lparr>initializingRef := True\<rparr>))) = []"
      using i stop_held_live[of "s\<lparr>initializingRef := True\<rparr>"] by (simp add: cv_inv_def)
    show ?thesis using False True c l
      by (simp add: initCamera_def Let_def case_prod_beta cv_inv_def detach_fields stop_held_fields attached_detach)
  next
    case f: False
    show ?thesis using False f c i
      by (simp add: initCamera_def Let_def case_prod_beta cv_inv_def catch_fields)
  qed
qed

lemma timeouts_inv: "cv_inv (s\<lparr>timeouts := t\<rparr>) = cv_inv s"
  by (simp add: cv_inv_def)

lemma video_mounted_inv: "cv_inv s \<Longrightarrow> cv_inv (s\<lparr>video := Some None\<rparr>)" "cv_inv s \<Longrightarrow> cv_inv (s\<lparr>video := None\<rparr>)"
  by (simp_all add: cv_inv_def)

lemma cv_step_inv: "cv_inv s \<Longrightarrow> cv_inv (fst (cv_step supported ev s))"
  by (cases ev)
     (auto simp: cv_step_def effect_runs_inv cleanup_inv initCamera_inv gum_resolved_inv fail_inv
        metadata_loaded_inv play_resolved_inv video_mounted_inv timeouts_inv
        split: option.splits phase.splits)

lemma cv_run_Cons:
  "fst (cv_run supported (ev # evs) s) = fst (cv_run supported evs (fst (cv_step supported ev s))) \<and>
   snd (cv_run supported (ev # evs) s)
     = snd (cv_step supported ev s) @ snd (cv_run supported evs (fst (cv_step supported ev s)))"
  by (simp split: prod.splits)

lemma cv_run_inv: "cv_inv s \<Longrightarrow> cv_inv (fst (cv_run supported evs s))"
proof (induction evs arbitrary: s)
  case Nil
  then show ?case by simp
next
  case (Cons ev evs)
  then show ?case using cv_step_inv[of s supported ev] by (simp only: cv_run_Cons)
qed

lemma held_ok_length: "held_ok l h \<Longrightarrow> length l \<le> 1"
  by (auto dest: held_ok_cases)

lemma await_gum_nothing:
  assumes i: "cv_inv s" and m: "map_of (calls s) i = Some (k, Await_gum)"
  shows "nothing_attached s"
proof -
  from i m have h: "streamRef s = None"
    by (auto simp: cv_inv_def dest!: calls_ok_cases split: if_splits)
  from i h have l: "live s = []" by (auto simp: cv_inv_def dest!: held_ok_cases)
  from i h have "attached_ok (video s) None" by (simp add: cv_inv_def)
  then have "video s = None \<or> video s = Some None"
    by (cases "(video s, None :: nat option)" rule: attached_ok.cases) auto
  then show ?thesis using h l by (simp add: nothing_attached_def)
qed

lemma cleanup_nothing:
  assumes i: "cv_inv s"
  shows "nothing_attached (fst (cleanup k s))"
proof -
  define s2 where "s2 = (case retryTimeout (runs s ! k) of
                  Some h \<Rightarrow> s\<lparr>runs := (runs s)[k := (runs s ! k)\<lparr>mounted := False\<rparr>], timeouts := filter (\<lambda>t. fst t \<noteq> h) (timeouts s)\<rparr>
                | None \<Rightarrow> s\<lparr>runs := (runs s)[k := (runs s ! k)\<lparr>mounted := False\<rparr>]\<rparr>)"
  have s2: "live s2 = live s" "streamRef s2 = streamRef s"
    by (simp_all add: s2_def split: option.splits)
  have c: "fst (cleanup k s) = detach (fst (stop_held s2))"
    by (simp add: cleanup_def Let_def s2_def case_prod_beta split: option.splits)
  show ?thesis unfolding c using i stop_held_live[of s2] detach_video[of "fst (stop_held s2)"]
    by (simp add: cv_inv_def nothing_attached_def detach_fields stop_held_fields s2)
qed

lemma late_stream_stopped:
  assumes i: "cv_inv s" and m: "map_of (calls s) i = Some (k, Await_gum)" and u: "\<not> mounted (runs s ! k)"
  shows "nothing_attached (fst (gum_resolved i k s)) \<and> video (fst (gum_resolved i k s)) = video s \<and>
         snd (gum_resolved i k s) = [Stop_tracks]"
  using await_gum_nothing[OF i m] u
  by (auto simp: gum_resolved_def Let_def nothing_attached_def finish_def)

lemma torn_down_nth: "torn_down s \<Longrightarrow> k < length (runs s) \<Longrightarrow> \<not> mounted (runs s ! k)"
  by (simp add: torn_down_def list_all_length)

lemma not_torn_down: "k < length (runs s) \<Longrightarrow> mounted (runs s ! k) \<Longrightarrow> \<not> torn_down s"
  by (auto simp: torn_down_def list_all_length)

lemma torn_catch: "k < length (runs s) \<Longrightarrow> torn_down_ok s \<Longrightarrow> torn_down_ok (fst (initCamera_catch k e s))"
  by (auto simp: initCamera_catch_def Let_def torn_down_ok_def torn_down_def list_all_length nth_list_update)

lemma torn_finish: "torn_down_ok (finish i s) = torn_down_ok s"
  by (simp add: torn_down_ok_def torn_down_def finish_def)

lemma torn_step:
  assumes i: "cv_inv s" and t: "torn_down_ok s"
  shows "torn_down_ok (fst (cv_step supported ev s))"
proof (cases ev)
  case (Effect_runs d)
  then show ?thesis by (simp add: cv_step_def effect_runs_def torn_down_ok_def torn_down_def)
next
  case (Cleanup k)
  have "nothing_attached (fst (cleanup k s))" using cleanup_nothing[OF i] .
  then have "torn_down_ok (fst (cleanup k s))" by (simp add: nothing_attached_def torn_down_ok_def)
  then show ?thesis using Cleanup t by (simp add: cv_step_def)
next
  case (Timeout_fires h)
  have "torn_down_ok (fst (initCamera supported k (s\<lparr>timeouts := ts\<rparr>)))" if "k < length (runs s)" for k ts
  proof -
    have l: "live (fst (stop_held (s\<lparr>timeouts := ts, initializingRef := True\<rparr>))) = []"
      using i stop_held_live[of "s\<lparr>timeouts := ts, initializingRef := True\<rparr>"] by (simp add: cv_inv_def)
    have c: "torn_down_ok (fst (initCamera_catch k e (s\<lparr>timeouts := ts, initializingRef := True\<rparr>)))" for e
      using torn_catch[of k "s\<lparr>timeouts := ts, initializingRef := True\<rparr>" e] that t
      by (simp add: torn_down_ok_def torn_down_def)
    show ?thesis using t l c
      by (auto simp: initCamera_def Let_def case_prod_beta torn_down_ok_def torn_down_def
          detach_fields stop_held_fields)
  qed
  then show ?thesis using Timeout_fires t by (auto simp: cv_step_def split: option.splits)
next
  case (Gum_resolves j)
  have "torn_down_ok (fst (gum_resolved j k s))" if m: "map_of (calls s) j = Some (k, Await_gum)" and k: "k < length (runs s)" for k
  proof -
    from await_gum_nothing[OF i m] have n: "live s = []" "streamRef s = None" by (simp_all add: nothing_attached_def)
    show ?thesis
    proof (cases "mounted (runs s ! k)")
      case True
      then have "\<not> torn_down s" using not_torn_down[OF k] by simp
      then show ?thesis using True
        by (auto simp: gum_resolved_def Let_def torn_down_ok_def torn_down_def finish_def split: option.splits)
    next
      case False
      then show ?thesis using n
        by (simp add: gum_resolved_def Let_def torn_down_ok_def torn_down_def finish_def)
    qed
  qed
  then show ?thesis using Gum_resolves t by (auto simp: cv_step_def split: option.splits phase.splits)
next
  case (Gum_rejects j e)
  then show ?thesis using t torn_catch[of _ s e]
    by (auto simp: cv_step_def fail_def case_prod_beta torn_finish split: option.splits phase.splits)
next
  case (Metadata_loaded j)
  have "torn_down_ok (s\<lparr>calls := c\<rparr>)" for c using t by (simp add: torn_down_ok_def torn_down_def)
  then show ?thesis using Metadata_loaded t torn_catch[of _ s "Error [Str ''TypeError'']"]
    by (auto simp: cv_step_def metadata_loaded_def fail_def case_prod_beta torn_finish split: option.splits phase.splits)
next
  case (Video_error j)
  then show ?thesis using t torn_catch[of _ s Thrown_value]
    by (auto simp: cv_step_def fail_def case_prod_beta torn_finish split: option.splits phase.splits)
next
  case (Play_resolves j)
  have "torn_down_ok (fst (play_resolved j k x s))" if "k < length (runs s)" for k x
    using t that
    by (auto simp: play_resolved_def Let_def finish_def torn_down_ok_def torn_down_def list_all_length nth_list_update)
  then show ?thesis using Play_resolves t by (auto simp: cv_step_def split: option.splits phase.splits)
next
  case (Play_rejects j e)
  then show ?thesis using t torn_catch[of _ s e]
    by (auto simp: cv_step_def fail_def case_prod_beta torn_finish split: option.splits phase.splits)
next
  case Video_mounted
  then show ?thesis using t by (simp add: cv_step_def torn_down_ok_def torn_down_def)
next
  case Video_unmounted
  then show ?thesis using t by (simp add: cv_step_def torn_down_ok_def torn_down_def)
qed

lemma torn_run:
  "cv_inv s \<Longrightarrow> torn_down_ok s \<Longrightarrow> torn_down_ok (fst (cv_run supported evs s))"
proof (induction evs arbitrary: s)
  case Nil
  then show ?case by simp
next
  case (Cons ev evs)
  then show ?case
    using cv_step_inv[of s supported ev] torn_step[of s supported ev] by (simp only: cv_run_Cons)
qed

text \<open>
  Claim C4. In every state a camera view can reach, whatever the order of effect runs,
  cleanups, timeouts and answers: at most one of its streams is live, and it is the one
  \<^verbatim>\<open>streamRef\<close> holds; a stream attached to the video is the held one. While a call
  waits for \<^verbatim>\<open>getUserMedia\<close>, that is, before a new stream can be attached, no stream
  is live, held or attached: the one held before was stopped and detached, whether it came
  from a finished acquisition or is replaced by a new effect run. A cleanup leaves nothing
  live, held or attached. A stream that arrives for a run whose cleanup has begun is
  stopped at once and never attached. And once every run of the effect has been cleaned
  up, no stream of the view is live or held, whatever arrives afterwards.
\<close>

theorem one_live_stream_per_camera_view:
  "length (live (fst (cv_run supported evs camera_view_init))) \<le> 1 \<and>
   held_ok (live (fst (cv_run supported evs camera_view_init)))
     (streamRef (fst (cv_run supported evs camera_view_init))) \<and>
   attached_ok (video (fst (cv_run supported evs camera_view_init)))
     (streamRef (fst (cv_run supported evs camera_view_init))) \<and>
   (map_of (calls (fst (cv_run supported evs camera_view_init))) i = Some (k, Await_gum) \<longrightarrow>
      nothing_attached (fst (cv_run supported evs camera_view_init))) \<and>
   (k < length (runs (fst (cv_run supported evs camera_view_init))) \<longrightarrow>
      nothing_attached (fst (cv_step supported (Cleanup k) (fst (cv_run supported evs camera_view_init))))) \<and>
   (map_of (calls (fst (cv_run supported evs camera_view_init))) i = Some (k, Await_gum) \<and>
    k < length (runs (fst (cv_run supported evs camera_view_init))) \<and>
    \<not> mounted (runs (fst (cv_run supported evs camera_view_init)) ! k) \<longrightarrow>
      nothing_attached (fst (cv_step supported (Gum_resolves i) (fst (cv_run supported evs camera_view_init)))) \<and>
      video (fst (cv_step supported (Gum_resolves i) (fst (cv_run supported evs camera_view_init))))
        = video (fst (cv_run supported evs camera_view_init)) \<and>
      snd (cv_step supported (Gum_resolves i) (fst (cv_run supported evs camera_view_init))) = [Stop_tracks]) \<and>
   (torn_down (fst (cv_run supported evs camera_view_init)) \<longrightarrow>
      live (fst (cv_run supported evs camera_view_init)) = [] \<and>
      streamRef (fst (cv_run supported evs camera_view_init)) = None)"
proof -
  define s where "s = fst (cv_run supported evs camera_view_init)"
  have i: "cv_inv s" unfolding s_def by (rule cv_run_inv[OF init_inv])
  have "torn_down_ok camera_view_init"
    by (simp add: torn_down_ok_def camera_view_init_def)
  then have t: "torn_down_ok s"
    unfolding s_def by (rule torn_run[OF init_inv])
  show ?thesis
    unfolding s_def[symmetric]
    using i t held_ok_length[of "live s" "streamRef s"] await_gum_nothing[OF i, of i k]
      cleanup_nothing[OF i, of k] late_stream_stopped[OF i, of i k]
    by (auto simp: cv_inv_def cv_step_def torn_down_ok_def)
qed

theorem one_live_stream_per_camera_view_witness:
  "live (fst (cv_run True
      [Effect_runs (Some ''a''), Timeout_fires 1, Gum_resolves 0, Metadata_loaded 0,
       Play_resolves 0] camera_view_init)) = [0] \<and>
   map_of (calls (fst (cv_run True
      [Effect_runs (Some ''a''), Timeout_fires 1, Gum_resolves 0, Metadata_loaded 0,
       Play_resolves 0, Cleanup 0, Effect_runs (Some ''b''), Timeout_fires 2]
      camera_view_init))) 1 = Some (1, Await_gum) \<and>
   nothing_attached (fst (cv_run True
      [Effect_runs (Some ''a''), Timeout_fires 1, Gum_resolves 0, Metadata_loaded 0,
       Play_resolves 0, Cleanup 0, Effect_runs (Some ''b''), Timeout_fires 2]
      camera_view_init)) \<and>
   live (fst (cv_run True
      [Effect_runs (Some ''a''), Timeout_fires 1, Gum_resolves 0, Metadata_loaded 0,
       Play_resolves 0, Cleanup 0, Effect_runs (Some ''b''), Timeout_fires 2, Gum_resolves 1]
      camera_view_init)) = [1] \<and>
   map_of (calls (fst (cv_run True
      [Effect_runs (Some ''a''), Timeout_fires 1, Cleanup 0] camera_view_init))) 0
     = Some (0, Await_gum) \<and>
   \<not> mounted (runs (fst (cv_run True
      [Effect_runs (Some ''a''), Timeout_fires 1, Cleanup 0] camera_view_init)) ! 0) \<and>
   snd (cv_step True (Gum_resolves 0) (fst (cv_run True
      [Effect_runs (Some ''a''), Timeout_fires 1, Cleanup 0] camera_view_init)))
     = [Stop_tracks] \<and>
   live (fst (cv_step True (Gum_resolves 0) (fst (cv_run True
      [Effect_runs (Some ''a''), Timeout_fires 1, Cleanup 0] camera_view_init)))) = [] \<and>
   torn_down (fst (cv_run True
      [Effect_runs (Some ''a''), Timeout_fires 1, Cleanup 0] camera_view_init))"
  using one_live_stream_per_camera_view
    [of True "[Effect_runs (Some ''a''), Timeout_fires 1, Cleanup 0]" 0 0]
    one_live_stream_per_camera_view
    [of True "[Effect_runs (Some ''a''), Timeout_fires 1, Gum_resolves 0, Metadata_loaded 0,
               Play_resolves 0, Cleanup 0, Effect_runs (Some ''b''), Timeout_fires 2]" 1 1]
  by (simp add: cv_step_def effect_runs_def cleanup_def initCamera_def gum_resolved_def
      metadata_loaded_def play_resolved_def stop_held_def detach_def finish_def set_phase_def
      deviceId_falsy_def camera_view_init_def nothing_attached_def torn_down_def Let_def)

section \<open>The device registry: permission probes and failed enumerations\<close>

lemma toasts_of_append: "toasts_of (xs @ ys) = toasts_of xs @ toasts_of ys"
  by (induction xs rule: toasts_of.induct) auto

lemma probes_of_append: "probes_of (xs @ ys) = probes_of xs + probes_of ys"
  by (induction xs rule: probes_of.induct) auto

lemma waits_of_append: "waits_of (xs @ ys) = waits_of xs @ waits_of ys"
  by (induction xs rule: waits_of.induct) auto

lemma permission_loop_no_toast: "toasts_of (snd (permission_loop gum n)) = []"
proof (induction gum n rule: permission_loop.induct)
  case (1 gum n)
  show ?case
    using 1 by (subst permission_loop.simps) (auto split: option.splits prod.splits)
qed

lemma permission_loop_probes:
  "probes_of (snd (permission_loop gum n)) \<le> MAX_PERMISSION_ATTEMPTS - n"
proof (induction gum n rule: permission_loop.induct)
  case (1 gum n)
  show ?case
    using 1 by (subst permission_loop.simps) (auto split: option.splits prod.splits)
qed

lemma permission_loop_waits:
  "list_all (\<lambda>ms. ms = 3000) (waits_of (snd (permission_loop gum n)))"
proof (induction gum n rule: permission_loop.induct)
  case (1 gum n)
  show ?case
    using 1 by (subst permission_loop.simps) (auto split: option.splits prod.splits)
qed

lemma exhausted_from:
  "n < MAX_PERMISSION_ATTEMPTS \<Longrightarrow>
   list_all (\<lambda>k. gum k \<noteq> None) [n..<MAX_PERMISSION_ATTEMPTS] \<Longrightarrow>
   fst (permission_loop gum n) = Inl (the (gum (MAX_PERMISSION_ATTEMPTS - 1))) \<and>
   probes_of (snd (permission_loop gum n)) = MAX_PERMISSION_ATTEMPTS - n \<and>
   waits_of (snd (permission_loop gum n)) = replicate (MAX_PERMISSION_ATTEMPTS - 1 - n) 3000"
proof (induction gum n rule: permission_loop.induct)
  case (1 gum n)
  from "1.prems" obtain e where e: "gum n = Some e" and
    rest: "list_all (\<lambda>k. gum k \<noteq> None) [Suc n..<MAX_PERMISSION_ATTEMPTS]"
    by (auto simp: upt_conv_Cons)
  show ?case
  proof (cases "n + 1 = MAX_PERMISSION_ATTEMPTS")
    case True
    then have n: "MAX_PERMISSION_ATTEMPTS - 1 = n" by simp
    show ?thesis
      using e "1.prems" True unfolding n by (subst (1 2 3) permission_loop.simps) auto
  next
    case False
    then have lt: "n + 1 < MAX_PERMISSION_ATTEMPTS" using "1.prems" by simp
    have ih: "fst (permission_loop gum (n + 1)) = Inl (the (gum (MAX_PERMISSION_ATTEMPTS - 1))) \<and>
       probes_of (snd (permission_loop gum (n + 1))) = MAX_PERMISSION_ATTEMPTS - (n + 1) \<and>
       waits_of (snd (permission_loop gum (n + 1)))
         = replicate (MAX_PERMISSION_ATTEMPTS - 1 - (n + 1)) 3000"
      using "1.IH"[OF _ e False lt] "1.prems" rest by simp
    have r: "replicate (MAX_PERMISSION_ATTEMPTS - 1 - n) (3000::nat)
               = 3000 # replicate (MAX_PERMISSION_ATTEMPTS - 1 - (n + 1)) 3000"
      using lt by (cases "MAX_PERMISSION_ATTEMPTS - 1 - n") auto
    show ?thesis
      using e False "1.prems" ih lt unfolding r
      by (subst (1 2 3) permission_loop.simps) (auto split: prod.splits)
  qed
qed

lemma granted_from:
  "\<not> list_all (\<lambda>k. gum k \<noteq> None) [n..<MAX_PERMISSION_ATTEMPTS] \<Longrightarrow>
   fst (permission_loop gum n) = Inr ()"
proof (induction gum n rule: permission_loop.induct)
  case (1 gum n)
  show ?case
  proof (cases "n < MAX_PERMISSION_ATTEMPTS")
    case False
    then show ?thesis using "1.prems" by simp
  next
    case True
    show ?thesis
    proof (cases "gum n")
      case None
      then show ?thesis using True by (subst permission_loop.simps) simp
    next
      case (Some e)
      then have rest: "\<not> list_all (\<lambda>k. gum k \<noteq> None) [Suc n..<MAX_PERMISSION_ATTEMPTS]"
        using "1.prems" True by (auto simp: upt_conv_Cons)
      then have ne: "n + 1 \<noteq> MAX_PERMISSION_ATTEMPTS" by auto
      have "fst (permission_loop gum (n + 1)) = Inr ()"
        using "1.IH"[OF True Some ne] rest by simp
      then show ?thesis using True Some ne
        by (subst permission_loop.simps) (simp add: case_prod_beta)
    qed
  qed
qed

lemma getCameras_never_throws: "fst (getCameras gum enumerated s) = Inr ()"
  by (auto simp: getCameras_def split: prod.splits sum.splits)

lemma getCameras_probes:
  "probes_of (snd (snd (getCameras gum enumerated s))) \<le> MAX_PERMISSION_ATTEMPTS"
  using permission_loop_probes[of gum 0]
  by (auto simp: getCameras_def getCameras_try_def Let_def probes_of_append
      split: prod.splits sum.splits)

lemma getCameras_failure:
  assumes "probe_exhausted gum \<or> no_video_input enumerated \<or> isl enumerated"
  shows "cameraDevices (fst (snd (getCameras gum enumerated s))) = [] \<and>
         toasts_of (snd (snd (getCameras gum enumerated s))) =
           [Toast ''Camera Error''
              [Str ''Could not access cameras in Camera Setup. Please ensure camera permissions are granted, no other apps are using them, and hardware is connected. Attempting to refresh permissions...'']
              Destructive]"
proof -
  have ex: "fst (permission_loop gum 0) = Inl (the (gum (MAX_PERMISSION_ATTEMPTS - 1)))"
    if "probe_exhausted gum"
    using exhausted_from[of 0 gum] that
    by (simp add: probe_exhausted_def MAX_PERMISSION_ATTEMPTS_def)
  show ?thesis
    using assms ex permission_loop_no_toast[of gum 0]
    by (auto simp: getCameras_def getCameras_try_def no_video_input_def Let_def
        toasts_of_append split: prod.splits sum.splits)
qed

lemma getCameras_success:
  assumes g: "\<not> probe_exhausted gum" and v: "\<not> no_video_input (Inr devices)"
  shows "cameraDevices (fst (snd (getCameras gum (Inr devices) s)))
           = filter (\<lambda>device. kind device = ''videoinput'') devices"
proof -
  have "fst (permission_loop gum 0) = Inr ()"
    using granted_from[of gum 0] g by (simp add: probe_exhausted_def)
  then show ?thesis
    using v by (auto simp: getCameras_def getCameras_try_def no_video_input_def Let_def
        split: prod.splits sum.splits)
qed

text \<open>
  Claim C6. When an enumeration fails, because all five permission probes were rejected,
  because no video input is among the devices, or because \<^verbatim>\<open>enumerateDevices\<close> itself
  rejected, \<^verbatim>\<open>getCameras\<close> returns normally, the exposed device list is empty, and
  exactly one notification was shown, the error toast. The registry stays usable: a later
  enumeration from that state, started by the \<^verbatim>\<open>devicechange\<close> listener or by
  \<^verbatim>\<open>refreshCameras\<close>, whose probe is granted and which finds video inputs, returns
  normally and exposes exactly those video inputs.
\<close>

theorem failed_enumeration_empties_list_and_notifies_once:
  "probe_exhausted gum \<or> no_video_input enumerated \<or> isl enumerated \<longrightarrow>
     fst (getCameras gum enumerated s) = Inr () \<and>
     cameraDevices (fst (snd (getCameras gum enumerated s))) = [] \<and>
     toasts_of (snd (snd (getCameras gum enumerated s))) =
       [Toast ''Camera Error''
          [Str ''Could not access cameras in Camera Setup. Please ensure camera permissions are granted, no other apps are using them, and hardware is connected. Attempting to refresh permissions...'']
          Destructive] \<and>
     (\<not> probe_exhausted gum' \<and> \<not> no_video_input (Inr devices) \<longrightarrow>
        fst (handleDeviceChange gum' (Inr devices) (fst (snd (getCameras gum enumerated s))))
          = Inr () \<and>
        cameraDevices (fst (snd (handleDeviceChange gum' (Inr devices)
                                   (fst (snd (getCameras gum enumerated s))))))
          = filter (\<lambda>device. kind device = ''videoinput'') devices \<and>
        fst (refreshCameras gum' (Inr devices) (fst (snd (getCameras gum enumerated s))))
          = Inr () \<and>
        cameraDevices (fst (snd (refreshCameras gum' (Inr devices)
                                   (fst (snd (getCameras gum enumerated s))))))
          = filter (\<lambda>device. kind device = ''videoinput'') devices)"
  using getCameras_failure[of gum enumerated s] getCameras_never_throws
    getCameras_success[of gum' devices "fst (snd (getCameras gum enumerated s))"]
  by (simp add: handleDeviceChange_def refreshCameras_def)

theorem failed_enumeration_empties_list_and_notifies_once_witness:
  "no_video_input (Inr [\<lparr>deviceId = ''m'', kind = ''audioinput'', label = ''Mic''\<rparr>]) \<and>
   getCameras (\<lambda>k. None) (Inr [\<lparr>deviceId = ''m'', kind = ''audioinput'', label = ''Mic''\<rparr>])
     \<lparr>cameraDevices = three_devices\<rparr>
     = (Inr (), \<lparr>cameraDevices = []\<rparr>,
        [Get_user_media, Stop_tracks, Enumerate_devices, Console_error,
         Toast ''Camera Error''
           [Str ''Could not access cameras in Camera Setup. Please ensure camera permissions are granted, no other apps are using them, and hardware is connected. Attempting to refresh permissions...'']
           Destructive]) \<and>
   \<not> probe_exhausted (\<lambda>k. None) \<and>
   \<not> no_video_input (Inr [\<lparr>deviceId = ''m'', kind = ''audioinput'', label = ''Mic''\<rparr>,
                          \<lparr>deviceId = ''a'', kind = ''videoinput'', label = ''A''\<rparr>]) \<and>
   cameraDevices (fst (snd (handleDeviceChange (\<lambda>k. None)
      (Inr [\<lparr>deviceId = ''m'', kind = ''audioinput'', label = ''Mic''\<rparr>,
            \<lparr>deviceId = ''a'', kind = ''videoinput'', label = ''A''\<rparr>])
      \<lparr>cameraDevices = []\<rparr>)))
     = [\<lparr>deviceId = ''a'', kind = ''videoinput'', label = ''A''\<rparr>] \<and>
   probe_exhausted (\<lambda>k. Some (Error [Str ''NotAllowedError''])) \<and>
   toasts_of (snd (snd (getCameras (\<lambda>k. Some (Error [Str ''NotAllowedError'']))
      (Inr three_devices) \<lparr>cameraDevices = three_devices\<rparr>)))
     = [Toast ''Camera Error''
          [Str ''Could not access cameras in Camera Setup. Please ensure camera permissions are granted, no other apps are using them, and hardware is connected. Attempting to refresh permissions...'']
          Destructive]"
  using failed_enumeration_empties_list_and_notifies_once
    [of "\<lambda>k. None" "Inr [\<lparr>deviceId = ''m'', kind = ''audioinput'', label = ''Mic''\<rparr>]"
        "\<lparr>cameraDevices = three_devices\<rparr>" "\<lambda>k. None"
        "[\<lparr>deviceId = ''m'', kind = ''audioinput'', label = ''Mic''\<rparr>,
          \<lparr>deviceId = ''a'', kind = ''videoinput'', label = ''A''\<rparr>]"]
    failed_enumeration_empties_list_and_notifies_once
    [of "\<lambda>k. Some (Error [Str ''NotAllowedError''])" "Inr three_devices"
        "\<lparr>cameraDevices = three_devices\<rparr>" "\<lambda>k. None" three_devices]
  by (simp add: no_video_input_def probe_exhausted_def MAX_PERMISSION_ATTEMPTS_def
      getCameras_def getCameras_try_def permission_loop.simps Let_def upt_rec
      handleDeviceChange_def three_devices_def)

section \<open>Bounded retries\<close>

lemma single_cases:
  "single_run s \<Longrightarrow>
     (timeouts s = [] \<and> calls s = []) \<or>
     (\<exists>h. timeouts s = [(h, 0)] \<and> calls s = []) \<or>
     (\<exists>i ph. calls s = [(i, 0, ph)] \<and> timeouts s = [])"
  apply (cases "timeouts s"; cases "calls s")
  apply (auto simp: single_run_def)
  done

lemma step_ok_refl: "single_run s \<Longrightarrow> step_ok s (s, [])"
  by (simp add: step_ok_def)

lemma catch_ok:
  assumes s: "single_run s" and c: "calls s = [(i, 0, ph)]" and t: "timeouts s = []"
  shows "step_ok s (fail i 0 e s)"
  using s c t
  by (auto simp: step_ok_def fail_def initCamera_catch_def finish_def Let_def single_run_def
      attempts_left_def retries_left_def MAX_RETRIES_def)


lemma delays_of_append: "delays_of (xs @ ys) = delays_of xs @ delays_of ys"
  by (induction xs rule: delays_of.induct) auto

lemma stop_held_effects: "probes_of (snd (stop_held s)) = 0" "delays_of (snd (stop_held s)) = []"
  by (simp_all add: stop_held_def split: option.splits)

lemma initCamera_ok:
  assumes s: "single_run s" and t: "timeouts s = [(h, 0)]" and c: "calls s = []"
  shows "step_ok s (initCamera supported 0 (s\<lparr>timeouts := filter (\<lambda>t. fst t \<noteq> h) (timeouts s)\<rparr>))"
proof -
  define s0 where "s0 = s\<lparr>timeouts := filter (\<lambda>t. fst t \<noteq> h) (timeouts s)\<rparr>"
  have s0: "timeouts s0 = []" "calls s0 = []" "runs s0 = runs s" "initializingRef s0 = initializingRef s"
    using t c by (simp_all add: s0_def)
  have "step_ok s (initCamera supported 0 s0)"
  proof (cases "deviceId_falsy (runs s0 ! 0) \<or> initializingRef s0")
    case True
    then show ?thesis using s s0 t
      by (auto simp: initCamera_def step_ok_def single_run_def attempts_left_def retries_left_def)
  next
    case False
    show ?thesis
    proof (cases supported)
      case True
      then show ?thesis using False s s0 t
        by (auto simp: initCamera_def step_ok_def single_run_def attempts_left_def retries_left_def
            Let_def case_prod_beta detach_fields stop_held_fields probes_of_append delays_of_append
            stop_held_effects MAX_RETRIES_def)
    next
      case f: False
      then show ?thesis using False s s0 t
        by (auto simp: initCamera_def step_ok_def single_run_def attempts_left_def retries_left_def
            Let_def case_prod_beta initCamera_catch_def MAX_RETRIES_def)
    qed
  qed
  then show ?thesis by (simp add: s0_def)
qed

lemma cleanup_ok:
  assumes s: "single_run s"
  shows "step_ok s (cleanup 0 s)"
proof -
  define s2 where "s2 = (case retryTimeout (runs s ! 0) of
                  Some h \<Rightarrow> s\<lparr>runs := (runs s)[0 := (runs s ! 0)\<lparr>mounted := False\<rparr>], timeouts := filter (\<lambda>t. fst t \<noteq> h) (timeouts s)\<rparr>
                | None \<Rightarrow> s\<lparr>runs := (runs s)[0 := (runs s ! 0)\<lparr>mounted := False\<rparr>]\<rparr>)"
  have c: "cleanup 0 s = (detach (fst (stop_held s2)), snd (stop_held s2))"
    by (simp add: cleanup_def Let_def s2_def case_prod_beta split: option.splits)
  have s2: "calls s2 = calls s" "length (runs s2) = length (runs s)" "retryCount (runs s2 ! 0) = retryCount (runs s ! 0)"
    "timeouts s2 = timeouts s \<or> timeouts s2 = []"
    using s single_cases[OF s] by (auto simp: s2_def single_run_def split: option.splits)
  show ?thesis unfolding c using s s2
    by (auto simp: step_ok_def single_run_def attempts_left_def retries_left_def detach_fields
        stop_held_fields stop_held_effects)
qed

lemma gum_resolved_ok:
  assumes s: "single_run s" and c: "calls s = [(i, 0, ph)]" and t: "timeouts s = []"
  shows "step_ok s (gum_resolved i 0 s)"
  using s c t
  by (auto simp: step_ok_def gum_resolved_def finish_def set_phase_def Let_def single_run_def
      attempts_left_def retries_left_def split: option.splits)

lemma metadata_loaded_ok:
  assumes s: "single_run s" and c: "calls s = [(i, 0, ph)]" and t: "timeouts s = []"
  shows "step_ok s (metadata_loaded i 0 x s)"
  using s c t catch_ok[OF s c t, of "Error [Str ''TypeError'']"]
  by (auto simp: step_ok_def metadata_loaded_def set_phase_def single_run_def
      attempts_left_def retries_left_def split: option.splits)

lemma play_resolved_ok:
  assumes s: "single_run s" and c: "calls s = [(i, 0, ph)]" and t: "timeouts s = []"
  shows "step_ok s (play_resolved i 0 x s)"
  using s c t
  by (auto simp: step_ok_def play_resolved_def finish_def Let_def single_run_def
      attempts_left_def retries_left_def)

lemma video_ok: "single_run s \<Longrightarrow> step_ok s (s\<lparr>video := v\<rparr>, [])"
  by (simp add: step_ok_def single_run_def attempts_left_def retries_left_def)

lemma cv_step_ok:
  assumes s: "single_run s" and ev: "\<not> is_effect_run ev"
  shows "step_ok s (cv_step supported ev s)"
proof -
  from single_cases[OF s] consider
    (idle) "timeouts s = []" "calls s = []" |
    (timer) h where "timeouts s = [(h, 0)]" "calls s = []" |
    (call) i ph where "calls s = [(i, 0, ph)]" "timeouts s = []"
    by blast
  then show ?thesis
  proof cases
    case idle
    then show ?thesis using s ev cleanup_ok[OF s] video_ok[OF s]
      by (cases ev) (auto simp: cv_step_def step_ok_refl single_run_def)
  next
    case timer
    then show ?thesis using s ev cleanup_ok[OF s] video_ok[OF s] initCamera_ok[OF s timer]
      by (cases ev) (auto simp: cv_step_def step_ok_refl single_run_def)
  next
    case call
    then show ?thesis using s ev cleanup_ok[OF s] video_ok[OF s] catch_ok[OF s call]
        gum_resolved_ok[OF s call] metadata_loaded_ok[OF s call] play_resolved_ok[OF s call]
      by (cases ev) (auto simp: cv_step_def step_ok_refl single_run_def split: phase.splits)
  qed
qed


lemma cv_run_ok:
  "single_run s \<Longrightarrow> list_all (\<lambda>ev. \<not> is_effect_run ev) evs \<Longrightarrow>
   step_ok s (cv_run supported evs s)"
proof (induction evs arbitrary: s)
  case Nil
  then show ?case by (simp add: step_ok_refl)
next
  case (Cons ev evs)
  have a: "step_ok s (cv_step supported ev s)"
    using cv_step_ok[of s ev supported] Cons.prems by simp
  then have b: "step_ok (fst (cv_step supported ev s)) (cv_run supported evs (fst (cv_step supported ev s)))"
    using Cons by (simp add: step_ok_def)
  show ?case
    using a b
    by (simp only: step_ok_def cv_run_Cons probes_of_append delays_of_append list_all_append length_append) simp
qed

lemma first_run_single: "single_run (fst (effect_runs d camera_view_init))"
  by (simp add: single_run_def effect_runs_def camera_view_init_def)

lemma first_run_budget:
  "attempts_left (fst (effect_runs d camera_view_init)) = Suc MAX_RETRIES"
  "retries_left (fst (effect_runs d camera_view_init)) = MAX_RETRIES"
  by (simp_all add: attempts_left_def retries_left_def effect_runs_def camera_view_init_def)

lemma single_run_bounds:
  assumes "list_all (\<lambda>ev. \<not> is_effect_run ev) evs"
  shows "probes_of (snd (cv_run supported evs (fst (effect_runs d camera_view_init)))) \<le> Suc MAX_RETRIES \<and>
         length (delays_of (snd (cv_run supported evs (fst (effect_runs d camera_view_init))))) \<le> MAX_RETRIES \<and>
         list_all (\<lambda>ms. ms = 3000) (delays_of (snd (cv_run supported evs (fst (effect_runs d camera_view_init)))))"
  using cv_run_ok[OF first_run_single assms, of d supported] first_run_budget[of d]
  by (simp add: step_ok_def)

lemma retries_ok_catch: "retries_ok s \<Longrightarrow> k < length (runs s) \<Longrightarrow> retries_ok (fst (initCamera_catch k e s))"
  by (auto simp: retries_ok_def initCamera_catch_def Let_def intro!: list_all_update)

lemma retries_ok_finish: "retries_ok (finish i s) = retries_ok s"
  by (simp add: retries_ok_def finish_def)

lemma retries_ok_step: "retries_ok s \<Longrightarrow> retries_ok (fst (cv_step supported ev s))"
proof (cases ev)
  case (Effect_runs d)
  assume "retries_ok s" then show ?thesis using Effect_runs
    by (simp add: cv_step_def effect_runs_def retries_ok_def)
next
  case (Cleanup k)
  assume r: "retries_ok s"
  have "retries_ok (fst (cleanup k s))" if "k < length (runs s)"
    using r that list_all_nth[of "\<lambda>r. retryCount r \<le> MAX_RETRIES" "runs s" k]
    by (auto simp: cleanup_def Let_def case_prod_beta retries_ok_def detach_fields stop_held_fields
        intro!: list_all_update split: option.splits)
  then show ?thesis using Cleanup r by (simp add: cv_step_def)
next
  case (Timeout_fires h)
  assume r: "retries_ok s"
  have "retries_ok (fst (initCamera supported k (s\<lparr>timeouts := t\<rparr>)))" if "k < length (runs s)" for k t
    using r that retries_ok_catch[of "s\<lparr>timeouts := t, initializingRef := True\<rparr>" k]
    by (auto simp: initCamera_def Let_def case_prod_beta retries_ok_def detach_fields stop_held_fields)
  then show ?thesis using Timeout_fires r by (auto simp: cv_step_def split: option.splits)
next
  case (Gum_resolves i)
  assume r: "retries_ok s"
  then show ?thesis using Gum_resolves
    by (auto simp: cv_step_def gum_resolved_def Let_def finish_def retries_ok_def split: option.splits phase.splits)
next
  case (Gum_rejects i e)
  assume r: "retries_ok s"
  then show ?thesis using Gum_rejects retries_ok_catch[OF r]
    by (auto simp: cv_step_def fail_def case_prod_beta retries_ok_finish split: option.splits phase.splits)
next
  case (Metadata_loaded i)
  assume r: "retries_ok s"
  then show ?thesis using Metadata_loaded retries_ok_catch[OF r]
    by (auto simp: cv_step_def metadata_loaded_def fail_def case_prod_beta retries_ok_finish split: option.splits phase.splits)
       (simp add: retries_ok_def)
next
  case (Video_error i)
  assume r: "retries_ok s"
  then show ?thesis using Video_error retries_ok_catch[OF r]
    by (auto simp: cv_step_def fail_def case_prod_beta retries_ok_finish split: option.splits phase.splits)
next
  case (Play_resolves i)
  assume r: "retries_ok s"
  have "retries_ok (fst (play_resolved i k x s))" if "k < length (runs s)" for k x
    using r that
    by (auto simp: play_resolved_def Let_def finish_def retries_ok_def intro!: list_all_update)
  then show ?thesis using Play_resolves r
    by (auto simp: cv_step_def split: option.splits phase.splits)
next
  case (Play_rejects i e)
  assume r: "retries_ok s"
  then show ?thesis using Play_rejects retries_ok_catch[OF r]
    by (auto simp: cv_step_def fail_def case_prod_beta retries_ok_finish split: option.splits phase.splits)
next
  case Video_mounted
  assume "retries_ok s" then show ?thesis using Video_mounted by (simp add: cv_step_def retries_ok_def)
next
  case Video_unmounted
  assume "retries_ok s" then show ?thesis using Video_unmounted by (simp add: cv_step_def retries_ok_def)
qed

lemma retries_ok_run: "retries_ok s \<Longrightarrow> retries_ok (fst (cv_run supported evs s))"
proof (induction evs arbitrary: s)
  case Nil
  then show ?case by simp
next
  case (Cons ev evs)
  then show ?case using retries_ok_step[of s supported ev] by (simp only: cv_run_Cons)
qed

lemma exhausted_catch:
  "mounted (runs s ! k) \<Longrightarrow> retryCount (runs s ! k) = MAX_RETRIES \<Longrightarrow>
   initCamera_catch k e s =
     (s\<lparr>hasError := True, isInitializing := False\<rparr>,
      [Console_error,
       Toast ''Camera Error''
         ([Str ''Failed to initialize camera '',
           Str (case run_deviceId (runs s ! k) of None \<Rightarrow> ''undefined'' | Some d \<Rightarrow> d),
           Str '' after '', N 7, Str '' attempts: ''] @
          or_default (case e of Error m \<Rightarrow> Some m | Thrown_value \<Rightarrow> None) [Str ''Unknown error''])
         Destructive])"
  by (simp add: initCamera_catch_def Let_def MAX_RETRIES_def)

text \<open>
  Claim C5. The permission probe: \<^verbatim>\<open>getUserMedia\<close> is called at most 5 times, every
  wait between attempts is 3000 ms, the loop always returns (it is a total function), and
  when all five attempts fail it throws the error of the fifth after exactly five calls and
  four waits. The camera view: in every reachable state no run's \<^verbatim>\<open>retryCount\<close>
  exceeds 7; whatever happens after one effect run, that run calls \<^verbatim>\<open>getUserMedia\<close> at
  most 8 times and arms at most 7 retry timeouts, each of 3000 ms, so the retries come to
  an end; and a failure at \<^verbatim>\<open>retryCount\<close> 7 arms no timeout, sets the error state and
  shows the error toast with the message of that last error.
\<close>

theorem probes_and_retries_are_bounded:
  "probes_of (snd (permission_loop gum 0)) \<le> 5 \<and>
   probes_of (snd (snd (getCameras gum enumerated r))) \<le> 5 \<and>
   list_all (\<lambda>ms. ms = 3000) (waits_of (snd (permission_loop gum 0))) \<and>
   (probe_exhausted gum \<longrightarrow>
      (\<forall>e. gum 4 = Some e \<longrightarrow> fst (permission_loop gum 0) = Inl e) \<and>
      probes_of (snd (permission_loop gum 0)) = 5 \<and>
      waits_of (snd (permission_loop gum 0)) = [3000, 3000, 3000, 3000]) \<and>
   list_all (\<lambda>r. retryCount r \<le> 7) (runs (fst (cv_run supported evs camera_view_init))) \<and>
   (list_all (\<lambda>ev. \<not> is_effect_run ev) evs1 \<longrightarrow>
      probes_of (snd (cv_run supported evs1 (fst (effect_runs d camera_view_init)))) \<le> 8 \<and>
      length (delays_of (snd (cv_run supported evs1 (fst (effect_runs d camera_view_init))))) \<le> 7 \<and>
      list_all (\<lambda>ms. ms = 3000)
        (delays_of (snd (cv_run supported evs1 (fst (effect_runs d camera_view_init)))))) \<and>
   (mounted (runs s ! k) \<and> retryCount (runs s ! k) = 7 \<longrightarrow>
      initCamera_catch k e s =
        (s\<lparr>hasError := True, isInitializing := False\<rparr>,
         [Console_error,
          Toast ''Camera Error''
            ([Str ''Failed to initialize camera '',
              Str (case run_deviceId (runs s ! k) of None \<Rightarrow> ''undefined'' | Some d \<Rightarrow> d),
              Str '' after '', N 7, Str '' attempts: ''] @
             or_default (case e of Error m \<Rightarrow> Some m | Thrown_value \<Rightarrow> None)
               [Str ''Unknown error''])
            Destructive]))"
proof -
  have probe: "probes_of (snd (permission_loop gum 0)) \<le> 5"
    using permission_loop_probes[of gum 0] by (simp add: MAX_PERMISSION_ATTEMPTS_def)
  have cams: "probes_of (snd (snd (getCameras gum enumerated r))) \<le> 5"
    using getCameras_probes[of gum enumerated r] by (simp add: MAX_PERMISSION_ATTEMPTS_def)
  have ex: "(\<forall>e. gum 4 = Some e \<longrightarrow> fst (permission_loop gum 0) = Inl e) \<and>
      probes_of (snd (permission_loop gum 0)) = 5 \<and>
      waits_of (snd (permission_loop gum 0)) = [3000, 3000, 3000, 3000]"
    if "probe_exhausted gum"
    using exhausted_from[of 0 gum] that
    by (auto simp: probe_exhausted_def MAX_PERMISSION_ATTEMPTS_def numeral_eq_Suc)
  have "retries_ok camera_view_init"
    by (simp add: retries_ok_def camera_view_init_def)
  then have rc: "list_all (\<lambda>r. retryCount r \<le> 7) (runs (fst (cv_run supported evs camera_view_init)))"
    using retries_ok_run[of camera_view_init supported evs]
    by (simp add: retries_ok_def MAX_RETRIES_def)
  have single: "probes_of (snd (cv_run supported evs1 (fst (effect_runs d camera_view_init)))) \<le> 8 \<and>
      length (delays_of (snd (cv_run supported evs1 (fst (effect_runs d camera_view_init))))) \<le> 7 \<and>
      list_all (\<lambda>ms. ms = 3000)
        (delays_of (snd (cv_run supported evs1 (fst (effect_runs d camera_view_init)))))"
    if "list_all (\<lambda>ev. \<not> is_effect_run ev) evs1"
    using single_run_bounds[OF that, of supported d] by (simp add: MAX_RETRIES_def)
  show ?thesis
    using probe cams permission_loop_waits[of gum 0] ex rc single exhausted_catch[of s k e]
    by (simp add: MAX_RETRIES_def)
qed

theorem probes_and_retries_are_bounded_witness:
  "probe_exhausted (\<lambda>k. Some (Error [N (int k)])) \<and>
   fst (permission_loop (\<lambda>k. Some (Error [N (int k)])) 0) = Inl (Error [N 4]) \<and>
   probes_of (snd (permission_loop (\<lambda>k. Some (Error [N (int k)])) 0)) = 5 \<and>
   waits_of (snd (permission_loop (\<lambda>k. Some (Error [N (int k)])) 0)) = [3000, 3000, 3000, 3000] \<and>
   list_all (\<lambda>ev. \<not> is_effect_run ev) eight_failures \<and>
   probes_of (snd (cv_run True eight_failures (fst (effect_runs (Some ''a'') camera_view_init))))
     = 8 \<and>
   delays_of (snd (cv_run True eight_failures (fst (effect_runs (Some ''a'') camera_view_init))))
     = [3000, 3000, 3000, 3000, 3000, 3000, 3000] \<and>
   toasts_of (snd (cv_run True eight_failures (fst (effect_runs (Some ''a'') camera_view_init))))
     = [Toast ''Camera Error''
          [Str ''Failed to initialize camera '', Str ''a'', Str '' after '', N 7,
           Str '' attempts: '', Str ''last'']
          Destructive] \<and>
   mounted (runs view_at_retry_limit ! 0) \<and>
   retryCount (runs view_at_retry_limit ! 0) = 7 \<and>
   snd (initCamera_catch 0 (Error [Str ''last'']) view_at_retry_limit)
     = [Console_error,
        Toast ''Camera Error''
          [Str ''Failed to initialize camera '', Str ''a'', Str '' after '', N 7,
           Str '' attempts: '', Str ''last'']
          Destructive]"
  using probes_and_retries_are_bounded
    [of "\<lambda>k. Some (Error [N (int k)])" "Inr three_devices" "\<lparr>cameraDevices = []\<rparr>" True "[]"
        eight_failures "Some ''a''" view_at_retry_limit 0 "Error [Str ''last'']"]
  by (simp add: probe_exhausted_def MAX_PERMISSION_ATTEMPTS_def MAX_RETRIES_def upt_rec
      eight_failures_def view_at_retry_limit_def
      cv_step_def effect_runs_def initCamera_def initCamera_catch_def fail_def finish_def
      stop_held_def detach_def deviceId_falsy_def camera_view_init_def or_default_def Let_def)

end
